theory Spec2Isabelle
  imports Complex_Main "HOL-Library.Multiset"
begin

section \<open>Book price tracking: store adapters, quote resolution, historical merge\<close>

text \<open>
  A shallow embedding of \<^verbatim>\<open>book_search/book_price_drop.py\<close>.

  Conventions of the model:
  \<^item> A Python float is an IEEE binary64 number: a finite value (a real that the format
    holds), an infinity or NaN. Every arithmetic result is rounded to the nearest
    binary64 number, a tie going to the even significand, as the hardware does. The sign
    of zero is not kept: no operation of the program tells the two zeros apart.
  \<^item> An exception is the left summand of \<open>error + 'a\<close>.
  \<^item> The network is a parameter \<open>web\<close>: what the transport answers to a request.
    The HTML parser is outside the repository; a response carries its body as the
    parsed list of elements.
  \<^item> Python's builtin \<open>float\<close> is a parameter \<open>pf\<close>; \<open>None\<close> stands for the
    \<open>ValueError\<close> it raises on text that is not a number.
  \<^item> Text is a list of bytes (UTF-8), so the euro sign is three characters.
\<close>

datatype error =
    ValueError | HTTPError | ConnectionError | ZeroDivisionError | OverflowError
  | TypeError | KeyError | AttributeError | IndexError

definition bind :: "error + 'a \<Rightarrow> ('a \<Rightarrow> error + 'b) \<Rightarrow> error + 'b" where
  "bind m f = (case m of Inl e \<Rightarrow> Inl e | Inr x \<Rightarrow> f x)"

subsection \<open>Python floats\<close>

datatype pyfloat = Fin real | PInf | NInf | Nan

definition pow2 :: "int \<Rightarrow> real" where
  "pow2 e = 2 powi e"

text \<open>The binary exponent of a number: how often a number from 1 on is halved before it is
  below 2, how often a number below 1 is doubled before it reaches 1. The searches stop
  beyond the range of the format.\<close>

primrec halvings :: "nat \<Rightarrow> real \<Rightarrow> nat" where
  "halvings 0 x = 0"
| "halvings (Suc n) x = (if x < 2 then 0 else Suc (halvings n (x / 2)))"

primrec doublings :: "nat \<Rightarrow> real \<Rightarrow> nat" where
  "doublings 0 x = 0"
| "doublings (Suc n) x = (if 1 \<le> x then 0 else Suc (doublings n (2 * x)))"

definition expo :: "real \<Rightarrow> int" where
  "expo x = (if 1 \<le> \<bar>x\<bar> then int (halvings 1024 \<bar>x\<bar>) else - int (doublings 1075 \<bar>x\<bar>))"

text \<open>Python's \<^verbatim>\<open>round(x)\<close> with one argument on a finite float, and the rounding of a
  significand: the nearest integer, a tie going to the even one.\<close>

definition py_round :: "real \<Rightarrow> int" where
  "py_round x =
     (let f = \<lfloor>x\<rfloor>; d = x - of_int f
      in if d < 1 / 2 then f
         else if 1 / 2 < d then f + 1
         else if even f then f else f + 1)"

text \<open>The spacing of the binary64 numbers around \<open>x\<close> (53 significant bits, the smallest
  exponent -1022), and what a rounded value becomes when it leaves the range.\<close>

definition grid :: "real \<Rightarrow> real" where
  "grid x = pow2 (max (expo x) (- 1022) - 52)"

definition overflow :: "real \<Rightarrow> pyfloat" where
  "overflow y = (if pow2 1024 \<le> y then PInf else if y \<le> - pow2 1024 then NInf else Fin y)"

text \<open>Rounding a real result to binary64: the nearest number on the grid, then the range
  check. A decimal literal of the source and the text \<^verbatim>\<open>float\<close> parses are rounded the
  same way.\<close>

definition nearest :: "real \<Rightarrow> real" where
  "nearest x = of_int (py_round (x / grid x)) * grid x"

definition fround :: "real \<Rightarrow> pyfloat" where
  "fround x = overflow (nearest x)"

definition signed_inf :: "bool \<Rightarrow> pyfloat" where
  "signed_inf positive = (if positive then PInf else NInf)"

text \<open>\<^verbatim>\<open>x <= y\<close> and \<^verbatim>\<open>x == y\<close> on floats: false as soon as one side is NaN.\<close>

fun fle :: "pyfloat \<Rightarrow> pyfloat \<Rightarrow> bool" where
  "fle Nan y = False"
| "fle x Nan = False"
| "fle NInf y = True"
| "fle x PInf = True"
| "fle PInf y = False"
| "fle x NInf = False"
| "fle (Fin a) (Fin b) = (a \<le> b)"

fun feq :: "pyfloat \<Rightarrow> pyfloat \<Rightarrow> bool" where
  "feq (Fin a) (Fin b) = (a = b)"
| "feq PInf PInf = True"
| "feq NInf NInf = True"
| "feq x y = False"

fun fneg :: "pyfloat \<Rightarrow> pyfloat" where
  "fneg (Fin a) = Fin (- a)"
| "fneg PInf = NInf"
| "fneg NInf = PInf"
| "fneg Nan = Nan"

fun fadd :: "pyfloat \<Rightarrow> pyfloat \<Rightarrow> pyfloat" where
  "fadd (Fin a) (Fin b) = fround (a + b)"
| "fadd Nan y = Nan"
| "fadd x Nan = Nan"
| "fadd PInf NInf = Nan"
| "fadd NInf PInf = Nan"
| "fadd PInf y = PInf"
| "fadd x PInf = PInf"
| "fadd NInf y = NInf"
| "fadd x NInf = NInf"

definition fsub :: "pyfloat \<Rightarrow> pyfloat \<Rightarrow> pyfloat" where
  "fsub x y = fadd x (fneg y)"

fun fmul :: "pyfloat \<Rightarrow> pyfloat \<Rightarrow> pyfloat" where
  "fmul (Fin a) (Fin b) = fround (a * b)"
| "fmul Nan y = Nan"
| "fmul x Nan = Nan"
| "fmul (Fin a) PInf = (if a = 0 then Nan else signed_inf (0 < a))"
| "fmul (Fin a) NInf = (if a = 0 then Nan else signed_inf (a < 0))"
| "fmul PInf (Fin b) = (if b = 0 then Nan else signed_inf (0 < b))"
| "fmul NInf (Fin b) = (if b = 0 then Nan else signed_inf (b < 0))"
| "fmul PInf PInf = PInf"
| "fmul NInf NInf = PInf"
| "fmul PInf NInf = NInf"
| "fmul NInf PInf = NInf"

text \<open>\<^verbatim>\<open>x / y\<close> on floats: Python raises \<open>ZeroDivisionError\<close> for a zero divisor, whatever
  the dividend.\<close>

fun fdiv :: "pyfloat \<Rightarrow> pyfloat \<Rightarrow> error + pyfloat" where
  "fdiv x (Fin b) =
     (if b = 0 then Inl ZeroDivisionError
      else (case x of
              Fin a \<Rightarrow> Inr (fround (a / b))
            | PInf \<Rightarrow> Inr (signed_inf (0 < b))
            | NInf \<Rightarrow> Inr (signed_inf (b < 0))
            | Nan \<Rightarrow> Inr Nan))"
| "fdiv Nan y = Inr Nan"
| "fdiv x Nan = Inr Nan"
| "fdiv (Fin a) y = Inr (Fin 0)"
| "fdiv x y = Inr Nan"

text \<open>\<^verbatim>\<open>round(x)\<close> on a float: \<open>OverflowError\<close> for an infinity, \<open>ValueError\<close> for NaN.\<close>

fun round_float :: "pyfloat \<Rightarrow> error + int" where
  "round_float (Fin x) = Inr (py_round x)"
| "round_float PInf = Inl OverflowError"
| "round_float NInf = Inl OverflowError"
| "round_float Nan = Inl ValueError"

text \<open>The float that the literal \<^verbatim>\<open>0.02\<close> of the source denotes.\<close>

definition margin :: pyfloat where
  "margin = fround 0.02"

subsection \<open>Cells\<close>

text \<open>A value held in a pandas table or row: Python's \<open>None\<close>, a float (\<open>NaN\<close> is what
  pandas stores for a missing number) or a text.\<close>

datatype cell = PyNone | Flt pyfloat | Str string

abbreviation Num :: "real \<Rightarrow> cell" where
  "Num x \<equiv> Flt (Fin x)"

abbreviation NaN :: cell where
  "NaN \<equiv> Flt Nan"

definition py_eq :: "cell \<Rightarrow> cell \<Rightarrow> bool" where
  "py_eq a b =
     (case (a, b) of
        (Flt x, Flt y) \<Rightarrow> feq x y
      | (Str s, Str t) \<Rightarrow> s = t
      | (PyNone, PyNone) \<Rightarrow> True
      | _ \<Rightarrow> False)"

text \<open>The test \<^verbatim>\<open>best <= ledger + 0.02\<close> of lines 164-165 and 203: adding to \<open>None\<close> or to
  a text raises \<open>TypeError\<close>, as does comparing \<open>None\<close> or a text with a float.\<close>

definition le_margin :: "cell \<Rightarrow> cell \<Rightarrow> error + bool" where
  "le_margin best ledger =
     (case ledger of
        Flt l \<Rightarrow>
          (case best of
             Flt b \<Rightarrow> Inr (fle b (fadd l margin))
           | _ \<Rightarrow> Inl TypeError)
      | _ \<Rightarrow> Inl TypeError)"

subsection \<open>Transport and parsed pages\<close>

text \<open>An attribute of a parsed element: the parser keeps \<open>class\<close> (and the other
  multi-valued attributes) as the list of its tokens and every other attribute as one
  text.\<close>

datatype attr_value = Single string | Tokens "string list"

record element =
  tag :: string
  attrs :: "(string \<times> attr_value) list"
  elem_text :: string

type_synonym html = "element list"

record response =
  status_code :: nat
  body :: html

datatype request = GET string | POST string "(string \<times> string) list"

type_synonym web = "request \<Rightarrow> error + response"

type_synonym parse_float = "string \<Rightarrow> pyfloat option"

fun join_tokens :: "string list \<Rightarrow> string" where
  "join_tokens [] = []"
| "join_tokens [t] = t"
| "join_tokens (t # ts) = t @ '' '' @ join_tokens ts"

text \<open>A search value matches a single-valued attribute when it is equal to it; it matches
  a token list when it is one of the tokens or the tokens joined by single spaces.\<close>

fun attr_matches :: "attr_value \<Rightarrow> string \<Rightarrow> bool" where
  "attr_matches (Single a) v = (a = v)"
| "attr_matches (Tokens ts) v = (v \<in> set ts \<or> join_tokens ts = v)"

text \<open>\<^verbatim>\<open>html.find(name, {key: value})\<close>: the first element, in document order, with that
  tag name and a matching attribute.\<close>

definition html_find :: "html \<Rightarrow> string \<Rightarrow> string \<times> string \<Rightarrow> element option" where
  "html_find doc name attr =
     find (\<lambda>e. tag e = name \<and>
                (case map_of (attrs e) (fst attr) of
                   None \<Rightarrow> False
                 | Some a \<Rightarrow> attr_matches a (snd attr))) doc"

text \<open>\<^verbatim>\<open>response.raise_for_status()\<close> of the requests library raises \<open>HTTPError\<close> for a
  status from 400 to 599 and returns for every other status.\<close>

definition raise_for_status :: "response \<Rightarrow> error + unit" where
  "raise_for_status r =
     (if 400 \<le> status_code r \<and> status_code r < 600 then Inl HTTPError else Inr ())"

definition get_html_from_url :: "web \<Rightarrow> string \<Rightarrow> error + html" where
  "get_html_from_url w url =
     (case w (GET url) of
        Inl e \<Rightarrow> Inl e
      | Inr resp \<Rightarrow>
          (case raise_for_status resp of
             Inl e \<Rightarrow> Inl e
           | Inr _ \<Rightarrow> Inr (body resp)))"

text \<open>\<^verbatim>\<open>s.replace(old, new)\<close> for a non-empty \<open>old\<close>, which is all the source uses:
  leftmost occurrences, not overlapping.\<close>

function str_replace :: "string \<Rightarrow> string \<Rightarrow> string \<Rightarrow> string" where
  "str_replace [] old new = []"
| "str_replace (c # cs) old new =
     (if old \<noteq> [] \<and> take (length old) (c # cs) = old
      then new @ str_replace (drop (length old) (c # cs)) old new
      else c # str_replace cs old new)"
  by pat_completeness auto
termination
  by (relation "measure (\<lambda>(s, old, new). length s)") (auto simp: neq_Nil_conv)

definition euro :: string where
  "euro = [CHR 0xE2, CHR 0x82, CHR 0xAC]"

definition to_float :: "parse_float \<Rightarrow> string \<Rightarrow> error + pyfloat option" where
  "to_float pf s = (case pf s of None \<Rightarrow> Inl ValueError | Some x \<Rightarrow> Inr (Some x))"

subsection \<open>Book rows\<close>

text \<open>One row of the book table: the catalog's fields the code reads, and the three
  working columns, which \<^verbatim>\<open>read_books\<close> sets to \<open>None\<close>. The isbn and the title are
  texts (\<^verbatim>\<open>read_books\<close> converts the isbn); the other fields hold whatever the table
  holds there.\<close>

record book =
  isbn :: string
  title :: string
  default_price :: cell
  best_price :: cell
  best_store :: cell
  discount :: cell
subsection \<open>Store adapters\<close>

definition get_price_almedina ::
  "parse_float \<Rightarrow> web \<Rightarrow> string \<Rightarrow> book \<Rightarrow> error + pyfloat option" where
  "get_price_almedina pf w store_url b =
     (case get_html_from_url w (store_url @ isbn b) of
        Inl e \<Rightarrow> Inl e
      | Inr doc \<Rightarrow>
          (if html_find doc ''div'' (''class'', ''message notice'') \<noteq> None then Inr None
           else
             (case html_find doc ''span'' (''data-price-type'', ''finalPrice'') of
                Some price_element \<Rightarrow>
                  to_float pf
                    (str_replace (str_replace (str_replace (elem_text price_element)
                       '','' ''.'') euro '''') '' '' '''')
              | None \<Rightarrow> Inr None)))"

definition leya_form_data :: "book \<Rightarrow> (string \<times> string) list" where
  "leya_form_data b =
     [(''chave'', isbn b), (''pagina'', ''1''), (''num_prod_pag'', ''15''),
      (''ordenar'', ''0''), (''listagem'', ''2''), (''categorias'', ''0''),
      (''editoras'', ''0'')]"

text \<open>The Leya adapter posts the form and parses whatever comes back: there is no call of
  \<^verbatim>\<open>raise_for_status\<close> on this path.\<close>

definition get_price_leya ::
  "parse_float \<Rightarrow> web \<Rightarrow> string \<Rightarrow> book \<Rightarrow> error + pyfloat option" where
  "get_price_leya pf w store_url b =
     (case w (POST store_url (leya_form_data b)) of
        Inl e \<Rightarrow> Inl e
      | Inr resp \<Rightarrow>
          (case html_find (body resp) ''div'' (''class'', ''right'') of
             Some price_element \<Rightarrow>
               to_float pf
                 (str_replace (str_replace (str_replace (str_replace (elem_text price_element)
                    ''&#8364;'' '''') '','' ''.'') euro '''') '' '' '''')
           | None \<Rightarrow> Inr None))"

definition get_price_presenca ::
  "parse_float \<Rightarrow> web \<Rightarrow> string \<Rightarrow> book \<Rightarrow> error + pyfloat option" where
  "get_price_presenca pf w store_url b =
     (case get_html_from_url w (store_url @ isbn b) of
        Inl e \<Rightarrow> Inl e
      | Inr doc \<Rightarrow>
          (case html_find doc ''span'' (''style'', ''font-size:36px;font-weight:600'') of
             Some price_element \<Rightarrow>
               to_float pf
                 (str_replace (str_replace (str_replace (str_replace (elem_text price_element)
                    '','' ''.'') euro '''') '' '' '''') ''&euro;'' '''')
           | None \<Rightarrow> Inr None))"

text \<open>The dispatch table of \<^verbatim>\<open>get_price\<close>; a name outside it raises \<open>ValueError\<close> before
  any request.\<close>

definition get_price ::
  "parse_float \<Rightarrow> web \<Rightarrow> string \<Rightarrow> string \<Rightarrow> book \<Rightarrow> error + pyfloat option" where
  "get_price pf w store store_url b =
     (if store = ''Almedina'' then get_price_almedina pf w store_url b
      else if store = ''Leya'' then get_price_leya pf w store_url b
      else if store = ''Presenca'' then get_price_presenca pf w store_url b
      else Inl ValueError)"

definition STORE_MAIN_URLS :: "(string \<times> string) list" where
  "STORE_MAIN_URLS =
     [(''Almedina'', ''https://www.almedina.net/catalogsearch/result/?q=''),
      (''Leya'', ''https://www.leyaonline.com/pt/pesquisa/pesquisa_ajax.php''),
      (''Presenca'', ''https://www.presenca.pt/search?q='')]"

subsection \<open>Quote resolution\<close>

text \<open>\<^verbatim>\<open>round((1 - scraped_price / row["default_price"]) * 100)\<close> of line 206, every
  operation in float arithmetic; a default price that is no number raises
  \<open>TypeError\<close>.\<close>

definition discount_of :: "pyfloat \<Rightarrow> cell \<Rightarrow> error + int" where
  "discount_of scraped_price list_price =
     (case list_price of
        Flt d \<Rightarrow>
          bind (fdiv scraped_price d) (\<lambda>ratio.
            round_float (fmul (fsub (Fin 1) ratio) (Fin 100)))
      | _ \<Rightarrow> Inl TypeError)"

text \<open>
  \<^verbatim>\<open>scrape_price_from_store\<close>. The statements run in the source's order: the test of
  line 202 looks for \<open>None\<close> only, so a best price that is held as \<open>NaN\<close> goes to the
  comparison; \<open>best_price\<close> is assigned first, the discount is computed next, and the
  test that chooses between appending and replacing the store name reads \<open>best_price\<close>
  after the assignment. Appending to a best store that is no text raises \<open>TypeError\<close>.
\<close>

definition scrape_price_from_store ::
  "parse_float \<Rightarrow> web \<Rightarrow> book \<Rightarrow> string \<Rightarrow> string \<Rightarrow> error + book" where
  "scrape_price_from_store pf w row store store_url =
     (case get_price pf w store store_url row of
        Inl e \<Rightarrow> Inl e
      | Inr None \<Rightarrow> Inr row
      | Inr (Some scraped_price) \<Rightarrow>
          bind (if best_price row = PyNone then Inr True
                else le_margin (Flt scraped_price) (best_price row)) (\<lambda>qualifies.
            if qualifies then
              (let row1 = row\<lparr>best_price := Flt scraped_price\<rparr> in
               bind (discount_of scraped_price (default_price row1)) (\<lambda>d.
                 let row2 = row1\<lparr>discount := Num (of_int d)\<rparr> in
                 if best_store row2 \<noteq> PyNone \<and> py_eq (Flt scraped_price) (best_price row2)
                 then (case best_store row2 of
                         Str s \<Rightarrow> Inr (row2\<lparr>best_store := Str (s @ '','' @ store)\<rparr>)
                       | _ \<Rightarrow> Inl TypeError)
                 else Inr (row2\<lparr>best_store := Str store\<rparr>)))
            else Inr row))"

subsection \<open>The store loop\<close>

text \<open>\<^verbatim>\<open>df_books.apply(scrape_price_from_store, args=(store, store_url), axis=1)\<close>
  calls the function on the rows in table order (an exception ends the run) and builds a
  new table from the returned rows. pandas then infers the type of every column of the new
  table: a column that holds at least one float and no text becomes a float column, and
  every \<open>None\<close> in it becomes \<open>NaN\<close>; any other column is left as it is.\<close>

fun apply_rows :: "(book \<Rightarrow> error + book) \<Rightarrow> book list \<Rightarrow> error + book list" where
  "apply_rows f [] = Inr []"
| "apply_rows f (row # rest) =
     bind (f row) (\<lambda>row'. bind (apply_rows f rest) (\<lambda>rest'. Inr (row' # rest')))"

definition is_float :: "cell \<Rightarrow> bool" where
  "is_float v = (case v of Flt x \<Rightarrow> True | _ \<Rightarrow> False)"

definition is_str :: "cell \<Rightarrow> bool" where
  "is_str v = (case v of Str s \<Rightarrow> True | _ \<Rightarrow> False)"

definition numeric_column :: "cell list \<Rightarrow> bool" where
  "numeric_column vs = (list_ex is_float vs \<and> \<not> list_ex is_str vs)"

definition infer_cell :: "cell list \<Rightarrow> cell \<Rightarrow> cell" where
  "infer_cell column v = (if v = PyNone \<and> numeric_column column then NaN else v)"

definition infer_objects :: "book list \<Rightarrow> book list" where
  "infer_objects table =
     map (\<lambda>r. r\<lparr>default_price := infer_cell (map default_price table) (default_price r),
                 best_price := infer_cell (map best_price table) (best_price r),
                 best_store := infer_cell (map best_store table) (best_store r),
                 discount := infer_cell (map discount table) (discount r)\<rparr>) table"

definition scrape_store ::
  "parse_float \<Rightarrow> web \<Rightarrow> book list \<Rightarrow> string \<Rightarrow> string \<Rightarrow> error + book list" where
  "scrape_store pf w df_books store store_url =
     bind (apply_rows (\<lambda>row. scrape_price_from_store pf w row store store_url) df_books)
       (\<lambda>table. Inr (infer_objects table))"

text \<open>The loop of \<^verbatim>\<open>scrape_books\<close> over the stores, in the order given.\<close>

fun scrape_stores ::
  "parse_float \<Rightarrow> web \<Rightarrow> (string \<times> string) list \<Rightarrow> book list \<Rightarrow> error + book list" where
  "scrape_stores pf w [] df_books = Inr df_books"
| "scrape_stores pf w ((store, store_url) # rest) df_books =
     bind (scrape_store pf w df_books store store_url) (scrape_stores pf w rest)"

subsection \<open>Vocabulary for statements about the store order\<close>

text \<open>The quotes the adapters return for a book over a list of stores; a float that is a
  finite binary64 number; and a lowest quote \<open>m\<close> that stands clear of the others: it is
  among the quotes, and no other quote passes the program's own test against it.\<close>

definition quotes :: "parse_float \<Rightarrow> web \<Rightarrow> (string \<times> string) list \<Rightarrow> book \<Rightarrow> pyfloat list" where
  "quotes pf w stores row =
     concat (map (\<lambda>(store, store_url).
                    case get_price pf w store store_url row of
                      Inr (Some q) \<Rightarrow> [q]
                    | _ \<Rightarrow> []) stores)"

definition every_store_quotes ::
  "parse_float \<Rightarrow> web \<Rightarrow> (string \<times> string) list \<Rightarrow> book \<Rightarrow> bool" where
  "every_store_quotes pf w stores row =
     list_all (\<lambda>(store, store_url).
                 case get_price pf w store store_url row of
                   Inr (Some q) \<Rightarrow> True
                 | _ \<Rightarrow> False) stores"

definition binary64 :: "pyfloat \<Rightarrow> bool" where
  "binary64 q = (case q of Fin x \<Rightarrow> fround x = Fin x | _ \<Rightarrow> False)"

definition stands_clear :: "pyfloat \<Rightarrow> pyfloat list \<Rightarrow> bool" where
  "stands_clear m qs = (m \<in> set qs \<and> list_all (\<lambda>q. q = m \<or> \<not> fle q (fadd m margin)) qs)"

subsection \<open>Ledger tables\<close>

text \<open>
  A pandas table: the ordered column labels, and the rows in index order, each row under
  its index label (the isbn) as a mapping from column label to value. Labels are unique
  in the tables the program reads (\<^verbatim>\<open>set_index("isbn")\<close> on files keyed by isbn).
\<close>

type_synonym series = "string \<rightharpoonup> cell"

record dataframe =
  columns :: "string list"
  rows :: "(string \<times> series) list"

definition cell_of :: "series \<Rightarrow> string \<Rightarrow> cell" where
  "cell_of r c = (case r c of Some v \<Rightarrow> v | None \<Rightarrow> NaN)"

definition in_index :: "dataframe \<Rightarrow> string \<Rightarrow> bool" where
  "in_index df k = (k \<in> set (map fst (rows df)))"

text \<open>\<^verbatim>\<open>df.loc[k, c]\<close> read: \<open>KeyError\<close> for an unknown label.\<close>

definition loc_get :: "dataframe \<Rightarrow> string \<Rightarrow> string \<Rightarrow> error + cell" where
  "loc_get df k c =
     (if c \<notin> set (columns df) then Inl KeyError
      else (case map_of (rows df) k of
              None \<Rightarrow> Inl KeyError
            | Some r \<Rightarrow> Inr (cell_of r c)))"

text \<open>\<^verbatim>\<open>df.loc[k, c] = v\<close> for a row \<open>k\<close> of the table: a column label that is not there
  yet is added at the end, with \<open>NaN\<close> in the other rows.\<close>

definition loc_set :: "dataframe \<Rightarrow> string \<Rightarrow> string \<Rightarrow> cell \<Rightarrow> dataframe" where
  "loc_set df k c v =
     \<lparr>columns = (if c \<in> set (columns df) then columns df else columns df @ [c]),
      rows = map (\<lambda>(k', r). (k', if k' = k then r(c \<mapsto> v)
                                  else if c \<in> set (columns df) then r
                                  else r(c \<mapsto> NaN))) (rows df)\<rparr>"

text \<open>\<^verbatim>\<open>df.loc[k] = values\<close> for a label \<open>k\<close> that is not in the index, with a tuple on the
  right: pandas builds \<^verbatim>\<open>Series(values, index=df.columns)\<close>, so the values go to the
  columns by position, and a tuple of another length raises \<open>ValueError\<close>.\<close>

definition loc_set_row :: "dataframe \<Rightarrow> string \<Rightarrow> cell list \<Rightarrow> error + dataframe" where
  "loc_set_row df k vs =
     (if length vs \<noteq> length (columns df) then Inl ValueError
      else Inr (df\<lparr>rows := rows df @ [(k, map_of (zip (columns df) vs))]\<rparr>))"

text \<open>One element of \<^verbatim>\<open>df_books.itertuples()\<close>: the index label first, then the row's
  values in column order; a field is read by name, and a name that is no column raises
  \<open>AttributeError\<close>.\<close>

definition itertuple :: "string list \<Rightarrow> string \<times> series \<Rightarrow> cell list" where
  "itertuple cols book_series = Str (fst book_series) # map (cell_of (snd book_series)) cols"

definition attr :: "string list \<Rightarrow> series \<Rightarrow> string \<Rightarrow> error + cell" where
  "attr cols b c = (if c \<in> set cols then Inr (cell_of b c) else Inl AttributeError)"

text \<open>The four assignments of the loop body that overwrite the running-best fields of
  row \<open>k\<close>, in the source's order.\<close>

definition overwrite_best ::
  "dataframe \<Rightarrow> string \<Rightarrow> cell \<Rightarrow> cell \<Rightarrow> cell \<Rightarrow> string \<Rightarrow> dataframe" where
  "overwrite_best h k today_best today_store today_discount today_date =
     loc_set
       (loc_set
         (loc_set
           (loc_set h k ''best_price'' today_best)
           k ''best_store'' today_store)
         k ''discount'' today_discount)
       k ''best_date'' (Str today_date)"

text \<open>The body of the loop of \<^verbatim>\<open>update_historical_data\<close> for one book of today's table
  (\<open>cols\<close> are the columns of that table). After seeding a new row the body goes on: there
  is no \<^verbatim>\<open>continue\<close> after the seeding. The log line reads \<open>title\<close> and
  \<open>best_store\<close>.\<close>

definition merge_book ::
  "string \<Rightarrow> string list \<Rightarrow> dataframe \<Rightarrow> string \<times> series \<Rightarrow> error + dataframe" where
  "merge_book today_date cols df_history book_series =
     (let k = fst book_series; b = snd book_series in
      bind (if \<not> in_index df_history k
            then loc_set_row df_history k (itertuple cols book_series)
            else Inr df_history) (\<lambda>h.
      bind (attr cols b ''best_price'') (\<lambda>today_best.
        if today_best = PyNone then Inr h
        else
          bind (loc_get h k ''best_price'') (\<lambda>ledger_best.
          bind (le_margin today_best ledger_best) (\<lambda>qualifies.
            if qualifies then
              bind (attr cols b ''title'') (\<lambda>_.
              bind (attr cols b ''best_store'') (\<lambda>today_store.
              bind (attr cols b ''discount'') (\<lambda>today_discount.
                Inr (overwrite_best h k today_best today_store today_discount today_date))))
            else Inr h)))))"

fun merge_books ::
  "string \<Rightarrow> string list \<Rightarrow> (string \<times> series) list \<Rightarrow> dataframe \<Rightarrow> error + dataframe" where
  "merge_books today_date cols [] h = Inr h"
| "merge_books today_date cols (book_series # rest) h =
     bind (merge_book today_date cols h book_series) (merge_books today_date cols rest)"

text \<open>\<^verbatim>\<open>df_history.insert(loc=9, column=today_date, value=df_books["best_price"])\<close>:
  the series is aligned to the ledger's index, a ledger row without a book today gets
  \<open>NaN\<close>; a table with fewer than 9 columns raises \<open>IndexError\<close>, a book table with a
  repeated label cannot be aligned.\<close>

definition insert_today :: "dataframe \<Rightarrow> string \<Rightarrow> dataframe \<Rightarrow> error + dataframe" where
  "insert_today h today_date df_books =
     (if ''best_price'' \<notin> set (columns df_books) then Inl KeyError
      else if \<not> distinct (map fst (rows df_books)) then Inl ValueError
      else if length (columns h) < 9 then Inl IndexError
      else Inr \<lparr>columns = take 9 (columns h) @ [today_date] @ drop 9 (columns h),
                rows = map (\<lambda>(k, r).
                         (k, r(today_date \<mapsto>
                               (case map_of (rows df_books) k of
                                  None \<Rightarrow> NaN
                                | Some b \<Rightarrow> cell_of b ''best_price'')))) (rows h)\<rparr>)"

text \<open>\<^verbatim>\<open>update_historical_data\<close>; today's date, which the source reads from the clock and
  formats as \<open>YYYY-MM-DD\<close>, is a parameter.\<close>

definition update_historical_data ::
  "string \<Rightarrow> dataframe \<Rightarrow> dataframe \<Rightarrow> error + dataframe" where
  "update_historical_data today_date df_history df_books =
     bind (merge_books today_date (columns df_books) (rows df_books) df_history) (\<lambda>h.
       if today_date \<notin> set (columns h) then insert_today h today_date df_books
       else Inr h)"

definition running_best :: "string list" where
  "running_best = [''best_price'', ''best_store'', ''discount'', ''best_date'']"

subsection \<open>Vocabulary for statements about the ledger\<close>

text \<open>What adding columns does to a row it does not write: \<open>NaN\<close> in the new columns.
  A cell of the result of a run, and two runs in a row.\<close>

definition fill :: "string list \<Rightarrow> string list \<Rightarrow> series \<Rightarrow> series" where
  "fill old new r = (\<lambda>c. if c \<in> set new \<and> c \<notin> set old then Some NaN else r c)"

definition ledger_cell :: "error + dataframe \<Rightarrow> string \<Rightarrow> string \<Rightarrow> error + cell" where
  "ledger_cell result k c = bind result (\<lambda>h. loc_get h k c)"

definition ledger_columns :: "error + dataframe \<Rightarrow> error + string list" where
  "ledger_columns result = bind result (\<lambda>h. Inr (columns h))"

definition ledger_index :: "error + dataframe \<Rightarrow> error + string list" where
  "ledger_index result = bind result (\<lambda>h. Inr (map fst (rows h)))"

definition run_twice ::
  "string \<Rightarrow> dataframe \<Rightarrow> dataframe \<Rightarrow> dataframe \<Rightarrow> error + dataframe" where
  "run_twice today_date df_history books1 books2 =
     bind (update_historical_data today_date df_history books1) (\<lambda>h.
       update_historical_data today_date h books2)"

subsection \<open>Example inputs\<close>

text \<open>A number parser that agrees with \<open>float\<close> on the texts used below; a transport that
  answers every GET with an Almedina result page and every POST with a Leya result page,
  each showing the given price text; a transport that answers from a price list per
  store (an Almedina address without a price gets the "not found" page, an isbn without
  a Leya price a page without a price element); and a catalog row.\<close>

definition demo_parse :: parse_float where
  "demo_parse s =
     map_of [(''4.01'', fround 4.01), (''4.03'', fround 4.03), (''5.00'', fround 5),
             (''7.00'', fround 7), (''8.50'', fround 8.5), (''8.70'', fround 8.7),
             (''9.97'', fround 9.97), (''9.99'', fround 9.99), (''10.00'', fround 10),
             (''10.02'', fround 10.02), (''10.03'', fround 10.03),
             (''12.50'', fround 12.5), (''15.00'', fround 15)] s"

definition almedina_page :: "string \<Rightarrow> html" where
  "almedina_page price_text =
     [\<lparr>tag = ''span'', attrs = [(''data-price-type'', Single ''finalPrice'')],
       elem_text = price_text\<rparr>]"

definition leya_page :: "string \<Rightarrow> html" where
  "leya_page price_text =
     [\<lparr>tag = ''div'', attrs = [(''class'', Tokens [''right''])], elem_text = price_text\<rparr>]"

definition not_found_page :: html where
  "not_found_page =
     [\<lparr>tag = ''div'', attrs = [(''class'', Tokens [''message'', ''notice''])],
       elem_text = ''Sem resultados''\<rparr>]"

definition demo_web :: "nat \<Rightarrow> string \<Rightarrow> string \<Rightarrow> web" where
  "demo_web status almedina_text leya_text req =
     (case req of
        GET url \<Rightarrow> Inr \<lparr>status_code = status, body = almedina_page almedina_text\<rparr>
      | POST url form \<Rightarrow> Inr \<lparr>status_code = status, body = leya_page leya_text\<rparr>)"

definition demo_shop :: "(string \<times> string) list \<Rightarrow> (string \<times> string) list \<Rightarrow> web" where
  "demo_shop almedina leya req =
     (case req of
        GET url \<Rightarrow>
          Inr \<lparr>status_code = 200,
               body = (case map_of almedina url of
                         Some price_text \<Rightarrow> almedina_page price_text
                       | None \<Rightarrow> not_found_page)\<rparr>
      | POST url form \<Rightarrow>
          Inr \<lparr>status_code = 200,
               body = (case map_of form ''chave'' of
                         None \<Rightarrow> []
                       | Some k \<Rightarrow>
                           (case map_of leya k of
                              Some price_text \<Rightarrow> leya_page price_text
                            | None \<Rightarrow> []))\<rparr>)"

definition demo_book :: "string \<Rightarrow> real \<Rightarrow> cell \<Rightarrow> cell \<Rightarrow> cell \<Rightarrow> book" where
  "demo_book k d p s n =
     \<lparr>isbn = k, title = ''Os Maias'', default_price = Num d,
      best_price = p, best_store = s, discount = n\<rparr>"

text \<open>A ledger with nine columns and a book table with the catalog's five columns and the
  three working columns.\<close>

definition demo_ledger_columns :: "string list" where
  "demo_ledger_columns =
     [''isbn'', ''title'', ''author'', ''publisher'', ''default_price'',
      ''best_price'', ''best_store'', ''discount'', ''best_date'']"

definition demo_book_columns :: "string list" where
  "demo_book_columns =
     [''isbn'', ''title'', ''author'', ''publisher'', ''default_price'',
      ''best_price'', ''best_store'', ''discount'']"

definition demo_today_row :: "string \<Rightarrow> cell \<Rightarrow> cell \<Rightarrow> cell \<Rightarrow> string \<times> series" where
  "demo_today_row k p s d =
     (k, [''isbn'' \<mapsto> Str k, ''title'' \<mapsto> Str ''Os Maias'', ''author'' \<mapsto> Str ''Eca'',
          ''publisher'' \<mapsto> Str ''Porto'', ''default_price'' \<mapsto> Num 20,
          ''best_price'' \<mapsto> p, ''best_store'' \<mapsto> s, ''discount'' \<mapsto> d])"

definition demo_ledger_row ::
  "string \<Rightarrow> cell \<Rightarrow> cell \<Rightarrow> cell \<Rightarrow> cell \<Rightarrow> string \<times> series" where
  "demo_ledger_row k p s d t =
     (k, [''isbn'' \<mapsto> Str k, ''title'' \<mapsto> Str ''Os Maias'', ''author'' \<mapsto> Str ''Eca'',
          ''publisher'' \<mapsto> Str ''Porto'', ''default_price'' \<mapsto> Num 20,
          ''best_price'' \<mapsto> p, ''best_store'' \<mapsto> s, ''discount'' \<mapsto> d,
          ''best_date'' \<mapsto> t])"

definition demo_books :: "(string \<times> series) list \<Rightarrow> dataframe" where
  "demo_books rs = \<lparr>columns = demo_book_columns, rows = rs\<rparr>"

definition demo_ledger :: "(string \<times> series) list \<Rightarrow> dataframe" where
  "demo_ledger rs = \<lparr>columns = demo_ledger_columns, rows = rs\<rparr>"

section \<open>Facts about float arithmetic\<close>

lemma halvings_numeral:
  "halvings (numeral k) x = (if x < 2 then 0 else Suc (halvings (pred_numeral k) (x / 2)))"
  by (simp add: numeral_eq_Suc)

lemma doublings_numeral:
  "doublings (numeral k) x = (if 1 \<le> x then 0 else Suc (doublings (pred_numeral k) (2 * x)))"
  by (simp add: numeral_eq_Suc)

lemmas fround_eval =
  fround_def nearest_def overflow_def grid_def expo_def pow2_def py_round_def Let_def
  halvings_numeral doublings_numeral

subsection \<open>py_round\<close>

lemma py_round_bounds: "\<bar>x - of_int (py_round x)\<bar> \<le> 1 / 2"
  unfolding py_round_def Let_def by (auto; linarith)

lemma py_round_tie: "\<bar>x - of_int (py_round x)\<bar> = 1 / 2 \<Longrightarrow> even (py_round x)"
  unfolding py_round_def Let_def by (auto split: if_splits; linarith)

lemma py_round_of_int [simp]: "py_round (of_int k) = k"
  by (simp add: py_round_def)

lemma py_round_0 [simp]: "py_round 0 = 0"
  using py_round_of_int[of 0] by simp

lemma py_round_mono: "x \<le> y \<Longrightarrow> py_round x \<le> py_round y"
proof (rule ccontr)
  assume xy: "x \<le> y" and "\<not> py_round x \<le> py_round y"
  then have lt: "py_round y + 1 \<le> py_round x" by simp
  have bx: "\<bar>x - of_int (py_round x)\<bar> \<le> 1 / 2" and bY: "\<bar>y - of_int (py_round y)\<bar> \<le> 1 / 2"
    by (rule py_round_bounds)+
  from lt have "of_int (py_round y) + (1::real) \<le> of_int (py_round x)"
    by (metis of_int_1 of_int_add of_int_le_iff)
  with bx bY xy have eq: "of_int (py_round x) = of_int (py_round y) + (1::real)"
    and tx: "\<bar>x - of_int (py_round x)\<bar> = 1 / 2" and ty: "\<bar>y - of_int (py_round y)\<bar> = 1 / 2"
    by linarith+
  from eq have "py_round x = py_round y + 1"
    by (metis of_int_1 of_int_add of_int_eq_iff)
  with py_round_tie[OF tx] py_round_tie[OF ty] show False by simp
qed

lemma py_round_unique:
  assumes "\<bar>x - of_int n\<bar> \<le> 1 / 2" and "\<bar>x - of_int n\<bar> = 1 / 2 \<Longrightarrow> even n"
  shows "py_round x = n"
proof (rule ccontr)
  let ?p = "py_round x"
  assume ne: "?p \<noteq> n"
  have b: "\<bar>x - of_int ?p\<bar> \<le> 1 / 2" by (rule py_round_bounds)
  from ne have "?p + 1 \<le> n \<or> n + 1 \<le> ?p" by linarith
  then have "real_of_int ?p + 1 \<le> of_int n \<or> real_of_int n + 1 \<le> of_int ?p"
    by (metis of_int_1 of_int_add of_int_le_iff)
  with b assms(1) have t1: "\<bar>x - of_int ?p\<bar> = 1 / 2" and t2: "\<bar>x - of_int n\<bar> = 1 / 2"
    and d: "real_of_int ?p + 1 = of_int n \<or> real_of_int n + 1 = of_int ?p"
    by linarith+
  from d have "?p + 1 = n \<or> n + 1 = ?p"
    by (metis of_int_1 of_int_add of_int_eq_iff)
  with py_round_tie[OF t1] assms(2)[OF t2] show False by presburger
qed

lemma py_round_uminus: "py_round (- x) = - py_round x"
proof (rule py_round_unique)
  have e: "- x - of_int (- py_round x) = - (x - of_int (py_round x))" by simp
  show "\<bar>- x - of_int (- py_round x)\<bar> \<le> 1 / 2"
    unfolding e abs_minus_cancel by (rule py_round_bounds)
  assume "\<bar>- x - of_int (- py_round x)\<bar> = 1 / 2"
  then have "\<bar>x - of_int (py_round x)\<bar> = 1 / 2"
    unfolding e abs_minus_cancel .
  from py_round_tie[OF this] show "even (- py_round x)" by simp
qed

subsection \<open>Exponents\<close>

lemma pow2_pos [simp]: "0 < pow2 e"
  by (simp add: pow2_def)

lemma pow2_add: "pow2 (a + b) = pow2 a * pow2 b"
  by (simp add: pow2_def power_int_add)

lemma pow2_nat: "pow2 (int n) = 2 ^ n"
  by (simp add: pow2_def)

lemma pow2_neg_nat: "pow2 (- int n) = 1 / 2 ^ n"
  by (simp add: pow2_def power_int_minus_divide)

lemma pow2_mono: "a \<le> b \<Longrightarrow> pow2 a \<le> pow2 b"
  by (simp add: pow2_def power_int_increasing)

lemma halvings_mono: "x \<le> y \<Longrightarrow> halvings n x \<le> halvings n y"
  by (induction n arbitrary: x y) auto

lemma doublings_antimono: "x \<le> y \<Longrightarrow> doublings n y \<le> doublings n x"
  by (induction n arbitrary: x y) auto

lemma halvings_le: "halvings n x \<le> n"
  by (induction n arbitrary: x) auto

lemma doublings_le: "doublings n x \<le> n"
  by (induction n arbitrary: x) auto

lemma halvings_lower: "1 \<le> x \<Longrightarrow> 2 ^ halvings n x \<le> x"
proof (induction n arbitrary: x)
  case 0
  then show ?case by simp
next
  case (Suc n)
  show ?case
  proof (cases "x < 2")
    case True
    with Suc.prems show ?thesis by simp
  next
    case False
    then have "1 \<le> x / 2" by simp
    from Suc.IH[OF this] False show ?thesis by simp
  qed
qed

lemma halvings_upper: "halvings n x < n \<Longrightarrow> x < 2 ^ Suc (halvings n x)"
proof (induction n arbitrary: x)
  case 0
  then show ?case by simp
next
  case (Suc n)
  show ?case
  proof (cases "x < 2")
    case True
    then show ?thesis by simp
  next
    case False
    with Suc.prems have "halvings n (x / 2) < n" by simp
    from Suc.IH[OF this] False show ?thesis by simp
  qed
qed

lemma doublings_lower: "doublings n x < n \<Longrightarrow> 1 \<le> x * 2 ^ doublings n x"
proof (induction n arbitrary: x)
  case 0
  then show ?case by simp
next
  case (Suc n)
  show ?case
  proof (cases "1 \<le> x")
    case True
    then show ?thesis by simp
  next
    case False
    with Suc.prems have "doublings n (2 * x) < n" by simp
    from Suc.IH[OF this] False show ?thesis by (simp add: mult.assoc mult.left_commute)
  qed
qed

lemma doublings_upper: "0 \<le> x \<Longrightarrow> x < 1 \<Longrightarrow> doublings n x = Suc j \<Longrightarrow> x * 2 ^ j < 1"
proof (induction n arbitrary: x j)
  case 0
  then show ?case by simp
next
  case (Suc n)
  from Suc.prems have d: "doublings n (2 * x) = j" by simp
  show ?case
  proof (cases j)
    case 0
    with Suc.prems show ?thesis by simp
  next
    case (Suc j')
    have "2 * x < 1"
    proof (rule ccontr)
      assume "\<not> 2 * x < 1"
      then have "doublings n (2 * x) = 0" by (cases n) auto
      with d Suc show False by simp
    qed
    from Suc.IH[OF _ this d[unfolded Suc]] Suc.prems(1) Suc show ?thesis
      by (simp add: mult.assoc mult.left_commute)
  qed
qed

lemma expo_uminus [simp]: "expo (- x) = expo x"
  by (simp add: expo_def)

lemma expo_mono: "\<bar>x\<bar> \<le> \<bar>y\<bar> \<Longrightarrow> expo x \<le> expo y"
  unfolding expo_def
  by (auto simp: halvings_mono doublings_antimono)

lemma expo_upper:
  assumes "0 < x" and "expo x \<le> 1023"
  shows "x < pow2 (max (expo x) (- 1022) + 1)"
proof (cases "1 \<le> x")
  case True
  with assms have h: "halvings 1024 x < 1024" and e: "expo x = int (halvings 1024 x)"
    by (simp_all add: expo_def)
  from halvings_upper[OF h] have "x < pow2 (int (Suc (halvings 1024 x)))"
    unfolding pow2_nat .
  moreover from e have "max (expo x) (- 1022) + 1 = int (Suc (halvings 1024 x))" by simp
  ultimately show ?thesis by (simp only:)
next
  case False
  with assms have e: "expo x = - int (doublings 1075 x)" by (simp add: expo_def)
  from False have "doublings 1075 x \<noteq> 0" by (simp add: doublings_numeral)
  then obtain j where j: "doublings 1075 x = Suc j" by (cases "doublings 1075 x") auto
  from doublings_upper[OF _ _ j] assms(1) False have "x * 2 ^ j < 1" by simp
  then have x: "x < pow2 (- int j)"
    unfolding pow2_neg_nat by (simp add: field_simps)
  have "- int j \<le> max (expo x) (- 1022) + 1" using e j by simp
  from pow2_mono[OF this] x show ?thesis by linarith
qed

lemma expo_lower:
  assumes "0 < x" and "- 1022 \<le> expo x"
  shows "pow2 (expo x) \<le> x"
proof (cases "1 \<le> x")
  case True
  with assms have e: "expo x = int (halvings 1024 x)" by (simp add: expo_def)
  from halvings_lower[OF True] show ?thesis unfolding e pow2_nat .
next
  case False
  with assms have e: "expo x = - int (doublings 1075 x)" by (simp add: expo_def)
  with assms(2) have "doublings 1075 x < 1075" by simp
  from doublings_lower[OF this] show ?thesis
    unfolding e pow2_neg_nat by (simp add: field_simps)
qed

lemma grid_pos [simp]: "0 < grid x"
  by (simp add: grid_def)

lemma grid_uminus [simp]: "grid (- x) = grid x"
  by (simp add: grid_def)

lemma nearest_uminus: "nearest (- x) = - nearest x"
  by (simp add: nearest_def py_round_uminus)

lemma nearest_nonneg: "0 \<le> x \<Longrightarrow> 0 \<le> nearest x"
proof -
  assume "0 \<le> x"
  with grid_pos[of x] have "of_int 0 \<le> x / grid x"
    by (simp add: divide_nonneg_pos del: grid_pos)
  from py_round_mono[OF this] have "0 \<le> py_round (x / grid x)" by simp
  then have "0 \<le> real_of_int (py_round (x / grid x))" by simp
  with grid_pos[of x] show ?thesis
    unfolding nearest_def by (intro mult_nonneg_nonneg) (simp_all del: grid_pos)
qed

lemma nearest_upper:
  assumes "0 < x" and "expo x \<le> 1023"
  shows "nearest x \<le> pow2 (max (expo x) (- 1022) + 1)"
proof -
  let ?e = "max (expo x) (- 1022)"
  have g: "grid x = pow2 (?e - 52)" by (simp add: grid_def)
  have "pow2 (53 + (?e - 52)) = pow2 53 * pow2 (?e - 52)" by (rule pow2_add)
  moreover have "53 + (?e - 52) = ?e + 1" by simp
  ultimately have p: "pow2 (?e + 1) = of_int (2 ^ 53) * grid x"
    unfolding g by (simp add: pow2_def)
  from expo_upper[OF assms] have "x / grid x \<le> of_int (2 ^ 53)"
    unfolding p by (simp add: field_simps)
  from py_round_mono[OF this] have "py_round (x / grid x) \<le> 2 ^ 53"
    by (simp only: py_round_of_int)
  then have "real_of_int (py_round (x / grid x)) \<le> of_int (2 ^ 53)"
    by (simp only: of_int_le_iff)
  then show ?thesis unfolding nearest_def p by (simp add: mult_right_mono)
qed

lemma nearest_lower:
  assumes "0 < x" and "- 1022 \<le> expo x"
  shows "pow2 (expo x) \<le> nearest x"
proof -
  from assms(2) have g: "grid x = pow2 (expo x - 52)" by (simp add: grid_def max_def)
  have "pow2 (52 + (expo x - 52)) = pow2 52 * pow2 (expo x - 52)" by (rule pow2_add)
  then have p: "pow2 (expo x) = of_int (2 ^ 52) * grid x"
    unfolding g by (simp add: pow2_def)
  from expo_lower[OF assms] have "of_int (2 ^ 52) \<le> x / grid x"
    unfolding p by (simp add: field_simps)
  from py_round_mono[OF this] have "2 ^ 52 \<le> py_round (x / grid x)"
    by (simp only: py_round_of_int)
  then have "of_int (2 ^ 52) \<le> real_of_int (py_round (x / grid x))"
    by (simp only: of_int_le_iff)
  then show ?thesis unfolding nearest_def p by (simp add: mult_right_mono)
qed

lemma nearest_mono_pos:
  assumes "0 < x" and "x \<le> y"
  shows "nearest x \<le> nearest y"
proof -
  from assms have y: "0 < y" by simp
  from assms have le: "expo x \<le> expo y" by (intro expo_mono) simp
  show ?thesis
  proof (cases "max (expo x) (- 1022) = max (expo y) (- 1022)")
    case True
    then have g: "grid x = grid y" by (simp add: grid_def)
    from assms(2) grid_pos[of y] have "x / grid y \<le> y / grid y"
      by (simp add: divide_right_mono del: grid_pos)
    from py_round_mono[OF this] show ?thesis
      unfolding nearest_def g by (simp add: mult_right_mono)
  next
    case False
    with le have lt: "max (expo x) (- 1022) < expo y" and ge: "- 1022 \<le> expo y"
      by (auto simp: max_def split: if_splits)
    have "expo y \<le> 1024" using halvings_le[of 1024 "\<bar>y\<bar>"] by (simp add: expo_def)
    with lt have "expo x \<le> 1023" by simp
    from nearest_upper[OF assms(1) this] have "nearest x \<le> pow2 (max (expo x) (- 1022) + 1)" .
    also from lt have "\<dots> \<le> pow2 (expo y)" by (intro pow2_mono) linarith
    also from nearest_lower[OF y ge] have "\<dots> \<le> nearest y" .
    finally show ?thesis .
  qed
qed

lemma nearest_mono: "x \<le> y \<Longrightarrow> nearest x \<le> nearest y"
proof -
  assume xy: "x \<le> y"
  consider "0 < x" | "x \<le> 0" "0 \<le> y" | "y < 0" by linarith
  then show ?thesis
  proof cases
    case 1
    from 1 xy show ?thesis by (rule nearest_mono_pos)
  next
    case 2
    from nearest_nonneg[of "- x"] 2(1) have "nearest x \<le> 0" by (simp add: nearest_uminus)
    with nearest_nonneg[OF 2(2)] show ?thesis by simp
  next
    case 3
    with xy have "0 < - y" "- y \<le> - x" by simp_all
    from nearest_mono_pos[OF this] show ?thesis by (simp add: nearest_uminus)
  qed
qed

lemma overflow_mono: "a \<le> b \<Longrightarrow> fle (overflow a) (overflow b)"
  using pow2_pos[of 1024] by (auto simp: overflow_def simp del: pow2_pos)

lemma fround_mono: "x \<le> y \<Longrightarrow> fle (fround x) (fround y)"
  unfolding fround_def by (intro overflow_mono nearest_mono)

lemma fle_Nan [simp]: "fle x Nan = False"
  by (cases x) simp_all

lemma fadd_Nan [simp]: "fadd x Nan = Nan"
  by (cases x) simp_all

lemma le_margin_NaN: "le_margin (Flt q) NaN = Inr False"
  by (simp add: le_margin_def)

section \<open>Facts about the adapters and the example inputs\<close>

lemmas adapter_defs =
  get_price_def get_price_almedina_def get_price_leya_def get_price_presenca_def
  get_html_from_url_def raise_for_status_def html_find_def to_float_def
  almedina_page_def leya_page_def not_found_page_def leya_form_data_def

lemmas float_defs =
  le_margin_def margin_def discount_of_def bind_def fsub_def signed_inf_def py_eq_def
  fround_eval

lemma demo_almedina_quote:
  "demo_parse t = Some q \<Longrightarrow> status < 400 \<Longrightarrow>
   str_replace (str_replace (str_replace a '','' ''.'') euro '''') '' '' '''' = t \<Longrightarrow>
   get_price demo_parse (demo_web status a l) ''Almedina'' u b = Inr (Some q)"
  by (simp add: adapter_defs demo_web_def)

lemma demo_leya_quote:
  "demo_parse t = Some q \<Longrightarrow>
   str_replace (str_replace (str_replace (str_replace l ''&#8364;'' '''') '','' ''.'')
     euro '''') '' '' '''' = t \<Longrightarrow>
   get_price demo_parse (demo_web status a l) ''Leya'' u b = Inr (Some q)"
  by (simp add: adapter_defs demo_web_def)

lemma almedina_quotes:
  "get_price demo_parse (demo_web 200 (''4,03'' @ euro) l) ''Almedina'' u b = Inr (Some (fround 4.03))"
  "get_price demo_parse (demo_web 200 (''5,00'' @ euro) l) ''Almedina'' u b = Inr (Some (fround 5))"
  "get_price demo_parse (demo_web 200 (''7,00'' @ euro) l) ''Almedina'' u b = Inr (Some (fround 7))"
  "get_price demo_parse (demo_web 200 (''8,50'' @ euro) l) ''Almedina'' u b = Inr (Some (fround 8.5))"
  "get_price demo_parse (demo_web 200 (''8,70'' @ euro) l) ''Almedina'' u b = Inr (Some (fround 8.7))"
  "get_price demo_parse (demo_web 200 (''9,99'' @ euro) l) ''Almedina'' u b = Inr (Some (fround 9.99))"
  "get_price demo_parse (demo_web 200 (''10,00'' @ euro) l) ''Almedina'' u b = Inr (Some (fround 10))"
  "get_price demo_parse (demo_web 200 (''10,02'' @ euro) l) ''Almedina'' u b = Inr (Some (fround 10.02))"
  "get_price demo_parse (demo_web 200 (''10,03'' @ euro) l) ''Almedina'' u b = Inr (Some (fround 10.03))"
  "get_price demo_parse (demo_web 200 (''15,00 '' @ euro) l) ''Almedina'' u b = Inr (Some (fround 15))"
  by (rule demo_almedina_quote[where t="''4.03''"], simp_all add: demo_parse_def euro_def,
      rule demo_almedina_quote[where t="''5.00''"], simp_all add: demo_parse_def euro_def,
      rule demo_almedina_quote[where t="''7.00''"], simp_all add: demo_parse_def euro_def,
      rule demo_almedina_quote[where t="''8.50''"], simp_all add: demo_parse_def euro_def,
      rule demo_almedina_quote[where t="''8.70''"], simp_all add: demo_parse_def euro_def,
      rule demo_almedina_quote[where t="''9.99''"], simp_all add: demo_parse_def euro_def,
      rule demo_almedina_quote[where t="''10.00''"], simp_all add: demo_parse_def euro_def,
      rule demo_almedina_quote[where t="''10.02''"], simp_all add: demo_parse_def euro_def,
      rule demo_almedina_quote[where t="''10.03''"], simp_all add: demo_parse_def euro_def,
      rule demo_almedina_quote[where t="''15.00''"], simp_all add: demo_parse_def euro_def)

lemma leya_quotes:
  "get_price demo_parse (demo_web 200 a (''9,97'' @ euro)) ''Leya'' u b = Inr (Some (fround 9.97))"
  "get_price demo_parse (demo_web 200 a (''9,99'' @ euro)) ''Leya'' u b = Inr (Some (fround 9.99))"
  "get_price demo_parse (demo_web 200 a (''10,02'' @ euro)) ''Leya'' u b = Inr (Some (fround 10.02))"
  by (rule demo_leya_quote[where t="''9.97''"], simp_all add: demo_parse_def euro_def,
      rule demo_leya_quote[where t="''9.99''"], simp_all add: demo_parse_def euro_def,
      rule demo_leya_quote[where t="''10.02''"], simp_all add: demo_parse_def euro_def)

lemma get_price_isbn:
  "isbn a = isbn b \<Longrightarrow> get_price pf w s u a = get_price pf w s u b"
  by (simp add: get_price_def get_price_almedina_def get_price_leya_def
      get_price_presenca_def leya_form_data_def)

section \<open>The quote resolver\<close>

lemma discount_of_Nan: "discount_of Nan d \<noteq> Inr n"
proof (cases d)
  case (Flt x)
  then show ?thesis
    by (cases x) (auto simp: discount_of_def bind_def fsub_def)
qed (simp_all add: discount_of_def)

lemma scrape_some:
  assumes "get_price pf w store store_url row = Inr (Some q)"
  shows "scrape_price_from_store pf w row store store_url =
     bind (if best_price row = PyNone then Inr True
           else le_margin (Flt q) (best_price row)) (\<lambda>qualifies.
       if qualifies then
         bind (discount_of q (default_price row)) (\<lambda>d.
           if best_store row \<noteq> PyNone \<and> feq q q
           then (case best_store row of
                   Str s \<Rightarrow> Inr (row\<lparr>best_price := Flt q, discount := Num (of_int d),
                                       best_store := Str (s @ '','' @ store)\<rparr>)
                 | _ \<Rightarrow> Inl TypeError)
           else Inr (row\<lparr>best_price := Flt q, discount := Num (of_int d),
                         best_store := Str store\<rparr>))
       else Inr row)"
  using assms by (simp add: scrape_price_from_store_def Let_def py_eq_def cong: if_cong)

lemma scrape_accepted:
  assumes "get_price pf w store store_url row = Inr (Some q)"
      and "best_price row = PyNone \<or> le_margin (Flt q) (best_price row) = Inr True"
      and "discount_of q (default_price row) = Inr d"
      and "best_store row = PyNone \<or> (\<exists>s. best_store row = Str s)"
  shows "scrape_price_from_store pf w row store store_url =
           Inr (row\<lparr>best_price := Flt q,
                    discount := Num (of_int d),
                    best_store := Str (case best_store row of Str s \<Rightarrow> s @ '','' @ store
                                       | _ \<Rightarrow> store)\<rparr>)"
proof -
  from assms(3) have "q \<noteq> Nan" using discount_of_Nan by blast
  then have e: "feq q q" by (cases q) simp_all
  from assms(2) have ok: "(if best_price row = PyNone then Inr True
            else le_margin (Flt q) (best_price row)) = Inr True" by auto
  show ?thesis
    unfolding scrape_some[OF assms(1)] ok
    using assms(3,4) e by (auto simp: bind_def)
qed

lemma scrape_rejected:
  assumes "get_price pf w store store_url row = Inr (Some q)"
      and "best_price row \<noteq> PyNone"
      and "le_margin (Flt q) (best_price row) = Inr False"
  shows "scrape_price_from_store pf w row store store_url = Inr row"
  unfolding scrape_some[OF assms(1)] using assms(2,3) by (simp add: bind_def)

lemma scrape_absent:
  assumes "get_price pf w store store_url row = Inr None"
  shows "scrape_price_from_store pf w row store store_url = Inr row"
  using assms by (simp add: scrape_price_from_store_def)

lemma bind_Inr_iff: "bind m f = Inr y \<longleftrightarrow> (\<exists>x. m = Inr x \<and> f x = Inr y)"
  by (cases m) (simp_all add: bind_def)

lemma scrape_cases:
  assumes "scrape_price_from_store pf w row store store_url = Inr row'"
  obtains (absent) "get_price pf w store store_url row = Inr None" "row' = row"
    | (rejected) q where "get_price pf w store store_url row = Inr (Some q)"
        "best_price row \<noteq> PyNone" "le_margin (Flt q) (best_price row) = Inr False" "row' = row"
    | (accepted) q d where "get_price pf w store store_url row = Inr (Some q)"
        "best_price row = PyNone \<or> le_margin (Flt q) (best_price row) = Inr True"
        "discount_of q (default_price row) = Inr d"
        "best_store row = PyNone \<or> (\<exists>s. best_store row = Str s)"
        "row' = row\<lparr>best_price := Flt q, discount := Num (of_int d),
                      best_store := Str (case best_store row of Str s \<Rightarrow> s @ '','' @ store
                                         | _ \<Rightarrow> store)\<rparr>"
proof (cases "get_price pf w store store_url row")
  case (Inl e)
  then have "scrape_price_from_store pf w row store store_url = Inl e"
    by (simp add: scrape_price_from_store_def)
  with assms show ?thesis by simp
next
  case (Inr qo)
  show ?thesis
  proof (cases qo)
    case None
    with Inr have gp: "get_price pf w store store_url row = Inr None" by simp
    from scrape_absent[OF gp] assms have "row' = row" by simp
    with gp absent show ?thesis by blast
  next
    case (Some q)
    note gp = Inr[unfolded Some]
    from assms[unfolded scrape_some[OF gp] bind_Inr_iff] obtain ok where
      ok: "(if best_price row = PyNone then Inr True
            else le_margin (Flt q) (best_price row)) = Inr ok"
      and rest: "(if ok then
         bind (discount_of q (default_price row)) (\<lambda>d.
           if best_store row \<noteq> PyNone \<and> feq q q
           then (case best_store row of
                   Str s \<Rightarrow> Inr (row\<lparr>best_price := Flt q, discount := Num (of_int d),
                                       best_store := Str (s @ '','' @ store)\<rparr>)
                 | _ \<Rightarrow> Inl TypeError)
           else Inr (row\<lparr>best_price := Flt q, discount := Num (of_int d),
                         best_store := Str store\<rparr>))
       else Inr row) = Inr row'"
      by blast
    show ?thesis
    proof (cases ok)
      case False
      with ok have "best_price row \<noteq> PyNone" "le_margin (Flt q) (best_price row) = Inr False"
        by (auto split: if_splits)
      moreover from False rest have "row' = row" by simp
      ultimately show ?thesis using gp rejected by blast
    next
      case True
      with ok have q: "best_price row = PyNone \<or> le_margin (Flt q) (best_price row) = Inr True"
        by (auto split: if_splits)
      from True rest obtain d where d: "discount_of q (default_price row) = Inr d"
        and fin: "(if best_store row \<noteq> PyNone \<and> feq q q
           then (case best_store row of
                   Str s \<Rightarrow> Inr (row\<lparr>best_price := Flt q, discount := Num (of_int d),
                                       best_store := Str (s @ '','' @ store)\<rparr>)
                 | _ \<Rightarrow> Inl TypeError)
           else Inr (row\<lparr>best_price := Flt q, discount := Num (of_int d),
                         best_store := Str store\<rparr>)) = Inr row'"
        by (auto simp: bind_Inr_iff)
      from d have "q \<noteq> Nan" using discount_of_Nan by blast
      then have e: "feq q q" by (cases q) simp_all
      from fin e have s: "best_store row = PyNone \<or> (\<exists>s. best_store row = Str s)"
        by (cases "best_store row") auto
      from scrape_accepted[OF gp q d s] assms have
        "row' = row\<lparr>best_price := Flt q, discount := Num (of_int d),
                      best_store := Str (case best_store row of Str s \<Rightarrow> s @ '','' @ store
                                         | _ \<Rightarrow> store)\<rparr>"
        by simp
      with gp q d s accepted show ?thesis by blast
    qed
  qed
qed

lemma scrape_isbn:
  "scrape_price_from_store pf w row s u = Inr row' \<Longrightarrow> isbn row' = isbn row"
  by (erule scrape_cases) simp_all

text \<open>The acceptance rule of line 202-203, for a row whose best price is \<open>None\<close> or a
  float.\<close>

lemma scrape_accept_iff:
  assumes "get_price pf w store store_url row = Inr (Some q)"
      and "scrape_price_from_store pf w row store store_url = Inr row'"
  shows "(best_price row = PyNone \<or> (\<exists>p. best_price row = Flt p \<and> fle q (fadd p margin))
            \<longrightarrow> best_price row' = Flt q)
       \<and> ((\<exists>p. best_price row = Flt p \<and> \<not> fle q (fadd p margin)) \<longrightarrow> row' = row)"
  using assms(2)
proof (cases rule: scrape_cases)
  case absent
  with assms(1) show ?thesis by simp
next
  case (rejected q')
  with assms(1) show ?thesis
    by (auto simp: le_margin_def split: cell.splits)
next
  case (accepted q' d)
  with assms(1) show ?thesis
    by (auto simp: le_margin_def split: cell.splits)
qed

text \<open>The three outcomes on the example rows.\<close>

lemma demo_accepted:
  assumes "get_price pf w store store_url (demo_book k D p s n) = Inr (Some q)"
      and "p = PyNone \<or> le_margin (Flt q) p = Inr True"
      and "discount_of q (Num D) = Inr d"
      and "s = PyNone \<and> t = store \<or> (\<exists>s'. s = Str s' \<and> t = s' @ '','' @ store)"
      and "n' = Num (of_int d)"
  shows "scrape_price_from_store pf w (demo_book k D p s n) store store_url
           = Inr (demo_book k D (Flt q) (Str t) n')"
proof -
  have "scrape_price_from_store pf w (demo_book k D p s n) store store_url =
          Inr ((demo_book k D p s n)\<lparr>best_price := Flt q, discount := Num (of_int d),
                 best_store := Str (case best_store (demo_book k D p s n) of
                                      Str s \<Rightarrow> s @ '','' @ store | _ \<Rightarrow> store)\<rparr>)"
    using assms(2-4) by (intro scrape_accepted[OF assms(1)]) (auto simp: demo_book_def)
  also have "\<dots> = Inr (demo_book k D (Flt q) (Str t) n')"
    using assms(4,5) by (auto simp: demo_book_def)
  finally show ?thesis .
qed

lemma demo_rejected:
  assumes "get_price pf w store store_url (demo_book k D p s n) = Inr (Some q)"
      and "p \<noteq> PyNone"
      and "le_margin (Flt q) p = Inr False"
  shows "scrape_price_from_store pf w (demo_book k D p s n) store store_url
           = Inr (demo_book k D p s n)"
  using assms(2,3) by (intro scrape_rejected[OF assms(1)]) (simp_all add: demo_book_def)

lemmas infer_defs =
  infer_objects_def infer_cell_def numeric_column_def is_float_def is_str_def demo_book_def

lemmas shop_defs = adapter_defs demo_shop_def demo_parse_def demo_book_def euro_def

text \<open>
  C1 (the code departs from the claim). A table of two books without a best price;
  Almedina lists only the second book, Leya only the first, at 5.00. After the Almedina
  pass the first book's absent best price is held as \<open>NaN\<close>, because the column now holds a
  float. Its Leya quote is then refused: the test of line 202 looks for \<open>None\<close>, and a
  comparison with \<open>NaN\<close> is false. The book ends the run without a best price although a
  store quoted it.
\<close>

theorem absent_price_refuses_quote:
  "scrape_store demo_parse (demo_shop [(''A/2'', ''9,99'' @ euro)] [(''1'', ''5,00'' @ euro)])
      [demo_book ''1'' 20 PyNone PyNone PyNone, demo_book ''2'' 20 PyNone PyNone PyNone]
      ''Almedina'' ''A/''
     = Inr [demo_book ''1'' 20 NaN PyNone NaN,
            demo_book ''2'' 20 (Flt (fround 9.99)) (Str ''Almedina'') (Num 50)]
   \<and> get_price demo_parse (demo_shop [(''A/2'', ''9,99'' @ euro)] [(''1'', ''5,00'' @ euro)])
      ''Leya'' ''L/'' (demo_book ''1'' 20 NaN PyNone NaN) = Inr (Some (fround 5))
   \<and> scrape_price_from_store demo_parse
      (demo_shop [(''A/2'', ''9,99'' @ euro)] [(''1'', ''5,00'' @ euro)])
      (demo_book ''1'' 20 NaN PyNone NaN) ''Leya'' ''L/''
     = Inr (demo_book ''1'' 20 NaN PyNone NaN)
   \<and> scrape_stores demo_parse (demo_shop [(''A/2'', ''9,99'' @ euro)] [(''1'', ''5,00'' @ euro)])
      [(''Almedina'', ''A/''), (''Leya'', ''L/'')]
      [demo_book ''1'' 20 PyNone PyNone PyNone, demo_book ''2'' 20 PyNone PyNone PyNone]
     = Inr [demo_book ''1'' 20 NaN PyNone NaN,
            demo_book ''2'' 20 (Flt (fround 9.99)) (Str ''Almedina'') (Num 50)]"
proof -
  let ?w = "demo_shop [(''A/2'', ''9,99'' @ euro)] [(''1'', ''5,00'' @ euro)]"
  let ?b1 = "demo_book ''1'' 20 PyNone PyNone PyNone"
  let ?b2 = "demo_book ''2'' 20 PyNone PyNone PyNone"
  let ?n1 = "demo_book ''1'' 20 NaN PyNone NaN"
  let ?r2 = "demo_book ''2'' 20 (Flt (fround 9.99)) (Str ''Almedina'') (Num 50)"
  have a1: "get_price demo_parse ?w ''Almedina'' ''A/'' ?b1 = Inr None"
    by (simp add: shop_defs)
  have a2: "get_price demo_parse ?w ''Almedina'' ''A/'' ?b2 = Inr (Some (fround 9.99))"
    by (simp add: shop_defs)
  have l1: "get_price demo_parse ?w ''Leya'' ''L/'' ?n1 = Inr (Some (fround 5))"
    by (simp add: shop_defs)
  have l2: "get_price demo_parse ?w ''Leya'' ''L/'' ?r2 = Inr None"
    by (simp add: shop_defs)
  have d: "discount_of (fround 9.99) (Num 20) = Inr 50"
    by (simp add: float_defs)
  have r1: "scrape_price_from_store demo_parse ?w ?b1 ''Almedina'' ''A/'' = Inr ?b1"
    by (rule scrape_absent[OF a1])
  have r2: "scrape_price_from_store demo_parse ?w ?b2 ''Almedina'' ''A/'' = Inr ?r2"
    by (rule demo_accepted[OF a2 _ d]) simp_all
  have i1: "infer_objects [?b1, ?r2] = [?n1, ?r2]"
    by (simp add: infer_defs)
  have s1: "scrape_store demo_parse ?w [?b1, ?b2] ''Almedina'' ''A/'' = Inr [?n1, ?r2]"
    by (simp only: scrape_store_def apply_rows.simps r1 r2 bind_def sum.case i1)
  have le: "le_margin (Flt (fround 5)) NaN = Inr False"
    by (rule le_margin_NaN)
  have r3: "scrape_price_from_store demo_parse ?w ?n1 ''Leya'' ''L/'' = Inr ?n1"
    by (rule demo_rejected[OF l1 _ le]) simp
  have r4: "scrape_price_from_store demo_parse ?w ?r2 ''Leya'' ''L/'' = Inr ?r2"
    by (rule scrape_absent[OF l2])
  have i2: "infer_objects [?n1, ?r2] = [?n1, ?r2]"
    by (simp add: infer_defs)
  have s2: "scrape_store demo_parse ?w [?n1, ?r2] ''Leya'' ''L/'' = Inr [?n1, ?r2]"
    by (simp only: scrape_store_def apply_rows.simps r3 r4 bind_def sum.case i2)
  have run: "scrape_stores demo_parse ?w [(''Almedina'', ''A/''), (''Leya'', ''L/'')] [?b1, ?b2]
               = Inr [?n1, ?r2]"
    by (simp only: scrape_stores.simps s1 s2 bind_def sum.case)
  from s1 l1 r3 run show ?thesis by (simp only: simp_thms)
qed

text \<open>On rows whose best price is a float the test is the one of line 203, in float
  arithmetic: against a best price of 10.00 a quote of 10.02 is accepted and one of 10.03
  is refused; against a best price of 4.01 a quote of 4.03 is refused, because the float
  sum of 4.01 and 0.02 lies below the float 4.03.\<close>

lemma scrape_margin_examples:
  "scrape_price_from_store demo_parse (demo_web 200 (''10,02'' @ euro) [])
      (demo_book ''1'' 20 (Num 10) (Str ''Leya'') (Num 50)) ''Almedina'' ''A/''
     = Inr (demo_book ''1'' 20 (Flt (fround 10.02)) (Str ''Leya,Almedina'') (Num 50))"
  "scrape_price_from_store demo_parse (demo_web 200 (''10,03'' @ euro) [])
      (demo_book ''1'' 20 (Num 10) (Str ''Leya'') (Num 50)) ''Almedina'' ''A/''
     = Inr (demo_book ''1'' 20 (Num 10) (Str ''Leya'') (Num 50))"
  "scrape_price_from_store demo_parse (demo_web 200 (''4,03'' @ euro) [])
      (demo_book ''1'' 20 (Flt (fround 4.01)) (Str ''Leya'') (Num 80)) ''Almedina'' ''A/''
     = Inr (demo_book ''1'' 20 (Flt (fround 4.01)) (Str ''Leya'') (Num 80))"
proof -
  have d: "discount_of (fround 10.02) (Num 20) = Inr 50"
    by (simp add: float_defs)
  have m: "le_margin (Flt (fround 10.02)) (Num 10) = Inr True"
          "le_margin (Flt (fround 10.03)) (Num 10) = Inr False"
          "le_margin (Flt (fround 4.03)) (Flt (fround 4.01)) = Inr False"
    by (simp_all add: float_defs)
  show "scrape_price_from_store demo_parse (demo_web 200 (''10,02'' @ euro) [])
      (demo_book ''1'' 20 (Num 10) (Str ''Leya'') (Num 50)) ''Almedina'' ''A/''
     = Inr (demo_book ''1'' 20 (Flt (fround 10.02)) (Str ''Leya,Almedina'') (Num 50))"
    by (rule demo_accepted[OF almedina_quotes(8) disjI2[OF m(1)] d]) simp_all
  show "scrape_price_from_store demo_parse (demo_web 200 (''10,03'' @ euro) [])
      (demo_book ''1'' 20 (Num 10) (Str ''Leya'') (Num 50)) ''Almedina'' ''A/''
     = Inr (demo_book ''1'' 20 (Num 10) (Str ''Leya'') (Num 50))"
    by (rule demo_rejected[OF almedina_quotes(9) _ m(2)]) simp
  show "scrape_price_from_store demo_parse (demo_web 200 (''4,03'' @ euro) [])
      (demo_book ''1'' 20 (Flt (fround 4.01)) (Str ''Leya'') (Num 80)) ''Almedina'' ''A/''
     = Inr (demo_book ''1'' 20 (Flt (fround 4.01)) (Str ''Leya'') (Num 80))"
    by (rule demo_rejected[OF almedina_quotes(1) _ m(3)]) simp
qed

text \<open>
  C2 (the code departs from the claim). Almedina reports 9.99 for a book without a best
  price and Leya reports next. When Leya reports 9.99 too, the best store is
  \<open>Almedina,Leya\<close>. When Leya reports 9.97 the best price becomes 9.97 and the best store is
  \<open>Almedina,Leya\<close> again, not \<open>Leya\<close>: the price is compared with \<open>best_price\<close> after
  \<open>best_price\<close> has been overwritten with it.
\<close>

theorem scrape_improvement_appends_store:
  "scrape_stores demo_parse (demo_web 200 (''9,99'' @ euro) (''9,99'' @ euro))
      [(''Almedina'', ''A/''), (''Leya'', ''L/'')] [demo_book ''1'' 20 PyNone PyNone PyNone]
     = Inr [demo_book ''1'' 20 (Flt (fround 9.99)) (Str ''Almedina,Leya'') (Num 50)]
   \<and> scrape_stores demo_parse (demo_web 200 (''9,99'' @ euro) (''9,97'' @ euro))
      [(''Almedina'', ''A/''), (''Leya'', ''L/'')] [demo_book ''1'' 20 PyNone PyNone PyNone]
     = Inr [demo_book ''1'' 20 (Flt (fround 9.97)) (Str ''Almedina,Leya'') (Num 50)]"
proof -
  let ?n = "demo_book ''1'' 20 PyNone PyNone PyNone"
  let ?a = "demo_book ''1'' 20 (Flt (fround 9.99)) (Str ''Almedina'') (Num 50)"
  let ?b = "demo_book ''1'' 20 (Flt (fround 9.99)) (Str ''Almedina,Leya'') (Num 50)"
  let ?c = "demo_book ''1'' 20 (Flt (fround 9.97)) (Str ''Almedina,Leya'') (Num 50)"
  have d: "discount_of (fround 9.99) (Num 20) = Inr 50"
          "discount_of (fround 9.97) (Num 20) = Inr 50"
    by (simp_all add: float_defs)
  have m: "le_margin (Flt (fround 9.99)) (Flt (fround 9.99)) = Inr True"
          "le_margin (Flt (fround 9.97)) (Flt (fround 9.99)) = Inr True"
    by (simp_all add: float_defs)
  have a: "scrape_price_from_store demo_parse (demo_web 200 (''9,99'' @ euro) l) ?n
             ''Almedina'' ''A/'' = Inr ?a" for l
    by (rule demo_accepted[OF almedina_quotes(6) _ d(1)]) simp_all
  have b: "scrape_price_from_store demo_parse (demo_web 200 x (''9,99'' @ euro)) ?a
             ''Leya'' ''L/'' = Inr ?b" for x
    by (rule demo_accepted[OF leya_quotes(2) disjI2[OF m(1)] d(1)]) simp_all
  have c: "scrape_price_from_store demo_parse (demo_web 200 x (''9,97'' @ euro)) ?a
             ''Leya'' ''L/'' = Inr ?c" for x
    by (rule demo_accepted[OF leya_quotes(1) disjI2[OF m(2)] d(2)]) simp_all
  have i: "infer_objects [?a] = [?a]" "infer_objects [?b] = [?b]" "infer_objects [?c] = [?c]"
    by (simp_all add: infer_defs)
  show ?thesis
    by (simp only: scrape_stores.simps scrape_store_def apply_rows.simps a b c i bind_def
        sum.case simp_thms)
qed

text \<open>
  C3. On a qualifying update the best price is the scraped price, and the best store is
  the current store name, except when a best store is already recorded and the scraped
  price equals the updated best price: then the current store name is appended to the
  recorded value after a comma.
\<close>

theorem scrape_best_store:
  assumes "get_price pf w store store_url row = Inr (Some q)"
      and "scrape_price_from_store pf w row store store_url = Inr row'"
      and "best_price row = PyNone \<or> (\<exists>p. best_price row = Flt p \<and> fle q (fadd p margin))"
  shows "best_price row' = Flt q
       \<and> best_store row' =
           Str (case best_store row of
                  Str s \<Rightarrow> if py_eq (Flt q) (best_price row') then s @ '','' @ store else store
                | _ \<Rightarrow> store)"
  using assms(2)
proof (cases rule: scrape_cases)
  case absent
  with assms(1) show ?thesis by simp
next
  case (rejected q')
  with assms(1,3) show ?thesis by (auto simp: le_margin_def)
next
  case (accepted q' d)
  with assms(1) have q: "q' = q" by simp
  from accepted(3) have "q' \<noteq> Nan" using discount_of_Nan by blast
  with q have "feq q q" by (cases q) simp_all
  with accepted(4,5) q show ?thesis
    by (auto simp: py_eq_def)
qed

theorem scrape_best_store_witness:
  "\<exists>r. scrape_price_from_store demo_parse (demo_web 200 (''10,02'' @ euro) [])
          (demo_book ''1'' 20 (Num 10) (Str ''Leya'') (Num 50)) ''Almedina'' ''A/'' = Inr r
     \<and> best_price r = Flt (fround 10.02) \<and> best_store r = Str ''Leya,Almedina''"
proof -
  let ?b = "demo_book ''1'' 20 (Num 10) (Str ''Leya'') (Num 50)"
  let ?w2 = "demo_web 200 (''10,02'' @ euro) []"
  have d: "discount_of (fround 10.02) (Num 20) = Inr 50"
    by (simp add: float_defs)
  have m: "le_margin (Flt (fround 10.02)) (Num 10) = Inr True"
    by (simp add: float_defs)
  have a: "scrape_price_from_store demo_parse ?w2 ?b ''Almedina'' ''A/''
             = Inr (demo_book ''1'' 20 (Flt (fround 10.02)) (Str ''Leya,Almedina'') (Num 50))"
    by (rule demo_accepted[OF almedina_quotes(8) disjI2[OF m] d]) simp_all
  have c: "best_price ?b = PyNone
             \<or> (\<exists>p. best_price ?b = Flt p \<and> fle (fround 10.02) (fadd p margin))"
    using m by (simp add: demo_book_def le_margin_def)
  from scrape_best_store[OF almedina_quotes(8) a c]
  have "best_price (demo_book ''1'' 20 (Flt (fround 10.02)) (Str ''Leya,Almedina'') (Num 50))
          = Flt (fround 10.02)
      \<and> best_store (demo_book ''1'' 20 (Flt (fround 10.02)) (Str ''Leya,Almedina'') (Num 50))
          = Str ''Leya,Almedina''"
    by (simp add: demo_book_def py_eq_def)
  with a show ?thesis by blast
qed

text \<open>
  C9. Whenever a quote \<open>Q\<close> is accepted for a book with default price \<open>D\<close>, the discount
  of the returned row is \<open>round ((1 - Q / D) * 100)\<close>: with \<open>v\<close> the float that
  \<open>(1 - Q / D) * 100\<close> evaluates to, the discount is the integer nearest to \<open>v\<close>, the even
  one when \<open>v\<close> lies halfway between two integers. For \<open>D = 20\<close> and \<open>Q = 15\<close> it is 25.
\<close>

theorem scrape_discount:
  assumes "get_price pf w store store_url row = Inr (Some q)"
      and "scrape_price_from_store pf w row store store_url = Inr row'"
      and "best_price row = PyNone \<or> (\<exists>p. best_price row = Flt p \<and> fle q (fadd p margin))"
  shows "\<exists>d ratio v n.
           default_price row = Flt d
         \<and> fdiv q d = Inr ratio
         \<and> fmul (fsub (Fin 1) ratio) (Fin 100) = Fin v
         \<and> discount row' = Num (of_int n)
         \<and> \<bar>v - of_int n\<bar> \<le> 1 / 2
         \<and> (\<bar>v - of_int n\<bar> = 1 / 2 \<longrightarrow> even n)"
  using assms(2)
proof (cases rule: scrape_cases)
  case absent
  with assms(1) show ?thesis by simp
next
  case (rejected q')
  with assms(1,3) show ?thesis by (auto simp: le_margin_def)
next
  case (accepted q' n)
  with assms(1) have q: "q' = q" by simp
  from accepted(3) q obtain d where d: "default_price row = Flt d"
    and r: "bind (fdiv q d) (\<lambda>ratio. round_float (fmul (fsub (Fin 1) ratio) (Fin 100))) = Inr n"
    by (cases "default_price row") (simp_all add: discount_of_def)
  from r obtain ratio where ratio: "fdiv q d = Inr ratio"
    and rf: "round_float (fmul (fsub (Fin 1) ratio) (Fin 100)) = Inr n"
    by (auto simp: bind_Inr_iff)
  from rf obtain v where v: "fmul (fsub (Fin 1) ratio) (Fin 100) = Fin v" and n: "n = py_round v"
    by (cases "fmul (fsub (Fin 1) ratio) (Fin 100)") auto
  from accepted(5) have "discount row' = Num (of_int n)" by simp
  with d ratio v n py_round_bounds[of v] py_round_tie[of v] show ?thesis by blast
qed

text \<open>The discounts for a default price of 20 and quotes of 15.00, 8.50 and 8.70, and for
  a default price of 8 and quotes of 7.00 and 5.00: 25; 57, where \<open>v\<close> is just below 57.5;
  57, where \<open>v\<close> is just above 56.5; and 12 and 38, where \<open>v\<close> is 12.5 and 37.5.\<close>

lemma discount_from_bounds:
  fixes v :: real
  assumes "\<bar>v - of_int n\<bar> \<le> 1 / 2" and "\<bar>v - of_int n\<bar> = 1 / 2 \<longrightarrow> even n"
      and "of_int k - 1 / 2 \<le> v" and "v \<le> of_int k + 1 / 2"
      and "v = of_int k - 1 / 2 \<or> v = of_int k + 1 / 2 \<Longrightarrow> even k"
  shows "n = k"
proof -
  from assms(1) have b: "v - 1 / 2 \<le> of_int n" "of_int n \<le> v + 1 / 2" by linarith+
  from b(2) assms(4) have "(of_int n :: real) \<le> of_int (k + 1)" by simp
  then have up: "n \<le> k + 1" by (simp only: of_int_le_iff)
  from b(1) assms(3) have "(of_int (k - 1) :: real) \<le> of_int n" by simp
  then have lo: "k - 1 \<le> n" by (simp only: of_int_le_iff)
  from up lo consider "n = k - 1" | "n = k" | "n = k + 1" by linarith
  then show ?thesis
  proof cases
    case 1
    with b(1) assms(3) have v: "v = of_int k - 1 / 2" by simp
    with 1 have "\<bar>v - of_int n\<bar> = 1 / 2" by simp
    with v show ?thesis using assms(2,5) 1 by auto
  next
    case 2 then show ?thesis .
  next
    case 3
    with b(2) assms(4) have v: "v = of_int k + 1 / 2" by simp
    with 3 have "\<bar>v - of_int n\<bar> = 1 / 2" by simp
    with v show ?thesis using assms(2,5) 3 by auto
  qed
qed

theorem scrape_discount_witness:
  "(\<exists>r. scrape_price_from_store demo_parse (demo_web 200 (''15,00 '' @ euro) [])
           (demo_book ''1'' 20 PyNone PyNone PyNone) ''Almedina'' ''A/'' = Inr r
         \<and> best_price r = Flt (fround 15) \<and> discount r = Num 25)
   \<and> (\<exists>r. scrape_price_from_store demo_parse (demo_web 200 (''8,50'' @ euro) [])
           (demo_book ''1'' 20 PyNone PyNone PyNone) ''Almedina'' ''A/'' = Inr r
         \<and> best_price r = Flt (fround 8.5) \<and> discount r = Num 57)
   \<and> (\<exists>r. scrape_price_from_store demo_parse (demo_web 200 (''8,70'' @ euro) [])
           (demo_book ''1'' 20 PyNone PyNone PyNone) ''Almedina'' ''A/'' = Inr r
         \<and> best_price r = Flt (fround 8.7) \<and> discount r = Num 57)
   \<and> (\<exists>r. scrape_price_from_store demo_parse (demo_web 200 (''7,00'' @ euro) [])
           (demo_book ''1'' 8 PyNone PyNone PyNone) ''Almedina'' ''A/'' = Inr r
         \<and> best_price r = Flt (fround 7) \<and> discount r = Num 12)
   \<and> (\<exists>r. scrape_price_from_store demo_parse (demo_web 200 (''5,00'' @ euro) [])
           (demo_book ''1'' 8 PyNone PyNone PyNone) ''Almedina'' ''A/'' = Inr r
         \<and> best_price r = Flt (fround 5) \<and> discount r = Num 38)"
proof -
  have w1: "\<exists>r. scrape_price_from_store demo_parse (demo_web 200 (''15,00 '' @ euro) [])
           (demo_book ''1'' 20 PyNone PyNone PyNone) ''Almedina'' ''A/'' = Inr r
         \<and> best_price r = Flt (fround 15) \<and> discount r = Num 25"
  proof -
    let ?b = "demo_book ''1'' 20 PyNone PyNone PyNone"
    have "discount_of (fround 15) (Num 20) = Inr 25"
      by (simp add: float_defs)
    then have "scrape_price_from_store demo_parse (demo_web 200 (''15,00 '' @ euro) [])
        ?b ''Almedina'' ''A/''
        = Inr (demo_book ''1'' 20 (Flt (fround 15)) (Str ''Almedina'') (Num 25))"
      by (intro demo_accepted[OF almedina_quotes(10)]) simp_all
    then obtain r where a: "scrape_price_from_store demo_parse (demo_web 200 (''15,00 '' @ euro) [])
        ?b ''Almedina'' ''A/'' = Inr r" and p: "best_price r = Flt (fround 15)"
      by (simp add: demo_book_def)
    have c: "best_price ?b = PyNone
               \<or> (\<exists>p. best_price ?b = Flt p \<and> fle (fround 15) (fadd p margin))"
      by (simp add: demo_book_def)
    from scrape_discount[OF almedina_quotes(10) a c] obtain d ratio v n where
          "default_price ?b = Flt d" and "fdiv (fround 15) d = Inr ratio"
      and "fmul (fsub (Fin 1) ratio) (Fin 100) = Fin v"
      and n: "discount r = Num (of_int n)"
      and b: "\<bar>v - of_int n\<bar> \<le> 1 / 2" "\<bar>v - of_int n\<bar> = 1 / 2 \<longrightarrow> even n"
      by blast
    then have "v = 25"
      by (auto simp: demo_book_def float_defs)
    then have "n = 25"
      by (intro discount_from_bounds[OF b]) auto
    with a p n show ?thesis by simp
  qed
  have w2: "\<exists>r. scrape_price_from_store demo_parse (demo_web 200 (''8,50'' @ euro) [])
           (demo_book ''1'' 20 PyNone PyNone PyNone) ''Almedina'' ''A/'' = Inr r
         \<and> best_price r = Flt (fround 8.5) \<and> discount r = Num 57"
  proof -
    let ?b = "demo_book ''1'' 20 PyNone PyNone PyNone"
    have "discount_of (fround 8.5) (Num 20) = Inr 57"
      by (simp add: float_defs)
    then have "scrape_price_from_store demo_parse (demo_web 200 (''8,50'' @ euro) [])
        ?b ''Almedina'' ''A/''
        = Inr (demo_book ''1'' 20 (Flt (fround 8.5)) (Str ''Almedina'') (Num 57))"
      by (intro demo_accepted[OF almedina_quotes(4)]) simp_all
    then obtain r where a: "scrape_price_from_store demo_parse (demo_web 200 (''8,50'' @ euro) [])
        ?b ''Almedina'' ''A/'' = Inr r" and p: "best_price r = Flt (fround 8.5)"
      by (simp add: demo_book_def)
    have c: "best_price ?b = PyNone
               \<or> (\<exists>p. best_price ?b = Flt p \<and> fle (fround 8.5) (fadd p margin))"
      by (simp add: demo_book_def)
    from scrape_discount[OF almedina_quotes(4) a c] obtain d ratio v n where
          "default_price ?b = Flt d" and "fdiv (fround 8.5) d = Inr ratio"
      and "fmul (fsub (Fin 1) ratio) (Fin 100) = Fin v"
      and n: "discount r = Num (of_int n)"
      and b: "\<bar>v - of_int n\<bar> \<le> 1 / 2" "\<bar>v - of_int n\<bar> = 1 / 2 \<longrightarrow> even n"
      by blast
    then have "57 - 1 / 2 < v \<and> v < 57 + 1 / 2"
      by (auto simp: demo_book_def float_defs)
    then have "n = 57"
      by (intro discount_from_bounds[OF b]) auto
    with a p n show ?thesis by simp
  qed
  have w3: "\<exists>r. scrape_price_from_store demo_parse (demo_web 200 (''8,70'' @ euro) [])
           (demo_book ''1'' 20 PyNone PyNone PyNone) ''Almedina'' ''A/'' = Inr r
         \<and> best_price r = Flt (fround 8.7) \<and> discount r = Num 57"
  proof -
    let ?b = "demo_book ''1'' 20 PyNone PyNone PyNone"
    have "discount_of (fround 8.7) (Num 20) = Inr 57"
      by (simp add: float_defs)
    then have "scrape_price_from_store demo_parse (demo_web 200 (''8,70'' @ euro) [])
        ?b ''Almedina'' ''A/''
        = Inr (demo_book ''1'' 20 (Flt (fround 8.7)) (Str ''Almedina'') (Num 57))"
      by (intro demo_accepted[OF almedina_quotes(5)]) simp_all
    then obtain r where a: "scrape_price_from_store demo_parse (demo_web 200 (''8,70'' @ euro) [])
        ?b ''Almedina'' ''A/'' = Inr r" and p: "best_price r = Flt (fround 8.7)"
      by (simp add: demo_book_def)
    have c: "best_price ?b = PyNone
               \<or> (\<exists>p. best_price ?b = Flt p \<and> fle (fround 8.7) (fadd p margin))"
      by (simp add: demo_book_def)
    from scrape_discount[OF almedina_quotes(5) a c] obtain d ratio v n where
          "default_price ?b = Flt d" and "fdiv (fround 8.7) d = Inr ratio"
      and "fmul (fsub (Fin 1) ratio) (Fin 100) = Fin v"
      and n: "discount r = Num (of_int n)"
      and b: "\<bar>v - of_int n\<bar> \<le> 1 / 2" "\<bar>v - of_int n\<bar> = 1 / 2 \<longrightarrow> even n"
      by blast
    then have "57 - 1 / 2 < v \<and> v < 57 + 1 / 2"
      by (auto simp: demo_book_def float_defs)
    then have "n = 57"
      by (intro discount_from_bounds[OF b]) auto
    with a p n show ?thesis by simp
  qed
  have w4: "\<exists>r. scrape_price_from_store demo_parse (demo_web 200 (''7,00'' @ euro) [])
           (demo_book ''1'' 8 PyNone PyNone PyNone) ''Almedina'' ''A/'' = Inr r
         \<and> best_price r = Flt (fround 7) \<and> discount r = Num 12"
  proof -
    let ?b = "demo_book ''1'' 8 PyNone PyNone PyNone"
    have "discount_of (fround 7) (Num 8) = Inr 12"
      by (simp add: float_defs)
    then have "scrape_price_from_store demo_parse (demo_web 200 (''7,00'' @ euro) [])
        ?b ''Almedina'' ''A/''
        = Inr (demo_book ''1'' 8 (Flt (fround 7)) (Str ''Almedina'') (Num 12))"
      by (intro demo_accepted[OF almedina_quotes(3)]) simp_all
    then obtain r where a: "scrape_price_from_store demo_parse (demo_web 200 (''7,00'' @ euro) [])
        ?b ''Almedina'' ''A/'' = Inr r" and p: "best_price r = Flt (fround 7)"
      by (simp add: demo_book_def)
    have c: "best_price ?b = PyNone
               \<or> (\<exists>p. best_price ?b = Flt p \<and> fle (fround 7) (fadd p margin))"
      by (simp add: demo_book_def)
    from scrape_discount[OF almedina_quotes(3) a c] obtain d ratio v n where
          "default_price ?b = Flt d" and "fdiv (fround 7) d = Inr ratio"
      and "fmul (fsub (Fin 1) ratio) (Fin 100) = Fin v"
      and n: "discount r = Num (of_int n)"
      and b: "\<bar>v - of_int n\<bar> \<le> 1 / 2" "\<bar>v - of_int n\<bar> = 1 / 2 \<longrightarrow> even n"
      by blast
    then have "v = 12 + 1 / 2"
      by (auto simp: demo_book_def float_defs)
    then have "n = 12"
      by (intro discount_from_bounds[OF b]) auto
    with a p n show ?thesis by simp
  qed
  have w5: "\<exists>r. scrape_price_from_store demo_parse (demo_web 200 (''5,00'' @ euro) [])
           (demo_book ''1'' 8 PyNone PyNone PyNone) ''Almedina'' ''A/'' = Inr r
         \<and> best_price r = Flt (fround 5) \<and> discount r = Num 38"
  proof -
    let ?b = "demo_book ''1'' 8 PyNone PyNone PyNone"
    have "discount_of (fround 5) (Num 8) = Inr 38"
      by (simp add: float_defs)
    then have "scrape_price_from_store demo_parse (demo_web 200 (''5,00'' @ euro) [])
        ?b ''Almedina'' ''A/''
        = Inr (demo_book ''1'' 8 (Flt (fround 5)) (Str ''Almedina'') (Num 38))"
      by (intro demo_accepted[OF almedina_quotes(2)]) simp_all
    then obtain r where a: "scrape_price_from_store demo_parse (demo_web 200 (''5,00'' @ euro) [])
        ?b ''Almedina'' ''A/'' = Inr r" and p: "best_price r = Flt (fround 5)"
      by (simp add: demo_book_def)
    have c: "best_price ?b = PyNone
               \<or> (\<exists>p. best_price ?b = Flt p \<and> fle (fround 5) (fadd p margin))"
      by (simp add: demo_book_def)
    from scrape_discount[OF almedina_quotes(2) a c] obtain d ratio v n where
          "default_price ?b = Flt d" and "fdiv (fround 5) d = Inr ratio"
      and "fmul (fsub (Fin 1) ratio) (Fin 100) = Fin v"
      and n: "discount r = Num (of_int n)"
      and b: "\<bar>v - of_int n\<bar> \<le> 1 / 2" "\<bar>v - of_int n\<bar> = 1 / 2 \<longrightarrow> even n"
      by blast
    then have "v = 38 - 1 / 2"
      by (auto simp: demo_book_def float_defs)
    then have "n = 38"
      by (intro discount_from_bounds[OF b]) auto
    with a p n show ?thesis by simp
  qed
  from w1 w2 w3 w4 w5 show ?thesis by (simp only: simp_thms)
qed

section \<open>Transport failures\<close>

text \<open>
  C8 (the code departs from the claim). On a response with status 500 the Leya adapter
  returns: absence when the body has no price element, a price when it has one. The
  Almedina adapter, which goes through \<^verbatim>\<open>get_html_from_url\<close>, raises on the same status.
\<close>

theorem leya_ignores_status:
  "get_price_leya demo_parse (\<lambda>req. Inr \<lparr>status_code = 500, body = []\<rparr>) ''L/''
      (demo_book ''1'' 20 PyNone PyNone PyNone) = Inr None
   \<and> get_price_leya demo_parse (demo_web 500 [] (''12,50'' @ euro)) ''L/''
      (demo_book ''1'' 20 PyNone PyNone PyNone) = Inr (Some (fround 12.5))
   \<and> get_price_almedina demo_parse (demo_web 500 (''12,50'' @ euro) []) ''A/''
      (demo_book ''1'' 20 PyNone PyNone PyNone) = Inl HTTPError"
  by (simp add: adapter_defs demo_web_def demo_parse_def euro_def)

section \<open>The historical merger\<close>

lemmas frame_defs =
  update_historical_data_def merge_book_def insert_today_def overwrite_best_def
  loc_set_def loc_set_row_def loc_get_def attr_def itertuple_def in_index_def
  cell_of_def bind_def ledger_cell_def ledger_columns_def ledger_index_def run_twice_def
  demo_books_def demo_ledger_def demo_today_row_def demo_ledger_row_def
  demo_book_columns_def demo_ledger_columns_def Let_def

lemma map_of_map_keyed:
  "map_of (map (\<lambda>(k, r). (k, f k r)) xs) k = map_option (f k) (map_of xs k)"
  by (induction xs) auto

lemma fill_same_fun: "fill cols cols = (\<lambda>r. r)"
  by (simp add: fill_def fun_eq_iff)

lemma fill_fill:
  "set a \<subseteq> set b \<Longrightarrow> set b \<subseteq> set c \<Longrightarrow> fill b c (fill a b r) = fill a c r"
  by (auto simp: fill_def fun_eq_iff)

subsection \<open>Single assignments\<close>

lemma columns_loc_set:
  "columns (loc_set h k c v) = (if c \<in> set (columns h) then columns h else columns h @ [c])"
  by (simp add: loc_set_def)

lemma row_loc_set:
  "map_of (rows (loc_set h k c v)) k' =
     map_option (\<lambda>r. if k' = k then r(c \<mapsto> v)
                      else if c \<in> set (columns h) then r else r(c \<mapsto> NaN))
       (map_of (rows h) k')"
  unfolding loc_set_def by (simp add: map_of_map_keyed)

lemma row_loc_set_self:
  "map_of (rows (loc_set h k c v)) k = map_option (\<lambda>r. r(c \<mapsto> v)) (map_of (rows h) k)"
  by (simp add: row_loc_set)

subsection \<open>The four assignments\<close>

lemma set_columns_overwrite:
  "set (columns (overwrite_best h k p s d t)) = set (columns h) \<union> set running_best"
  by (auto simp: overwrite_best_def columns_loc_set running_best_def)

lemma columns_overwrite_schema:
  "set running_best \<subseteq> set (columns h) \<Longrightarrow> columns (overwrite_best h k p s d t) = columns h"
  by (simp add: overwrite_best_def columns_loc_set running_best_def)

lemma row_overwrite_self:
  "map_of (rows (overwrite_best h k p s d t)) k =
     map_option (\<lambda>r. r(''best_price'' \<mapsto> p, ''best_store'' \<mapsto> s, ''discount'' \<mapsto> d,
                        ''best_date'' \<mapsto> Str t)) (map_of (rows h) k)"
  by (simp add: overwrite_best_def row_loc_set_self option.map_comp comp_def)

lemma row_overwrite_other:
  assumes "k' \<noteq> k"
  shows "map_of (rows (overwrite_best h k p s d t)) k' =
     map_option (\<lambda>r c. if c \<in> set running_best \<and> c \<notin> set (columns h) then Some NaN else r c)
       (map_of (rows h) k')"
  using assms
  by (cases "map_of (rows h) k'")
     (auto simp: overwrite_best_def row_loc_set columns_loc_set running_best_def fun_eq_iff)

lemma count_columns_loc_set:
  "x \<noteq> c \<Longrightarrow> count_list (columns (loc_set h k c v)) x = count_list (columns h) x"
  by (simp add: columns_loc_set)

lemma count_columns_overwrite:
  "x \<notin> set running_best \<Longrightarrow>
   count_list (columns (overwrite_best h k p s d t)) x = count_list (columns h) x"
  by (simp add: overwrite_best_def count_columns_loc_set running_best_def)

lemma row_overwrite_other_fill:
  assumes "k' \<noteq> k"
  shows "map_of (rows (overwrite_best h k p s d t)) k' =
     map_option (fill (columns h) (columns (overwrite_best h k p s d t))) (map_of (rows h) k')"
proof -
  have "fill (columns h) (columns (overwrite_best h k p s d t)) =
        (\<lambda>r c. if c \<in> set running_best \<and> c \<notin> set (columns h) then Some NaN else r c)"
    by (auto simp: fill_def fun_eq_iff set_columns_overwrite)
  then show ?thesis by (simp add: row_overwrite_other[OF assms])
qed

subsection \<open>Seeding a row\<close>

lemma seed_cases:
  assumes "(if \<not> in_index h k then loc_set_row h k vs else Inr h) = Inr h1"
  shows "columns h1 = columns h"
    and "k' \<noteq> k \<Longrightarrow> map_of (rows h1) k' = map_of (rows h) k'"
    and "map_of (rows h) k' = Some r \<Longrightarrow> map_of (rows h1) k' = Some r"
    and "in_index h k \<Longrightarrow> h1 = h"
    and "set (map fst (rows h1)) = insert k (set (map fst (rows h)))"
proof -
  from assms consider "in_index h k" "h1 = h"
    | m where "\<not> in_index h k" "h1 = h\<lparr>rows := rows h @ [(k, m)]\<rparr>"
    by (auto simp: loc_set_row_def split: if_splits)
  note c = this
  from c show "columns h1 = columns h" by cases simp_all
  from c show "map_of (rows h1) k' = map_of (rows h) k'" if "k' \<noteq> k"
    using that by cases (simp_all add: map_add_def split: option.splits)
  from c show "map_of (rows h1) k' = Some r" if "map_of (rows h) k' = Some r"
    using that by cases (simp_all add: map_add_def)
  from c show "h1 = h" if "in_index h k" using that by cases simp_all
  from c show "set (map fst (rows h1)) = insert k (set (map fst (rows h)))"
    by cases (auto simp: in_index_def)
qed

subsection \<open>One book\<close>

lemma merge_book_shape:
  assumes "merge_book today cols h (k, b) = Inr h'"
  obtains h1 where "(if \<not> in_index h k then loc_set_row h k (itertuple cols (k, b)) else Inr h) = Inr h1"
    and "h' = h1 \<or> (\<exists>p s d. h' = overwrite_best h1 k p s d today)"
  using assms
  by (auto simp: merge_book_def bind_Inr_iff Let_def split: if_splits)

lemma merge_book_columns:
  assumes "merge_book today cols h (k, b) = Inr h'"
  shows "set (columns h) \<subseteq> set (columns h')"
    and "set running_best \<subseteq> set (columns h) \<Longrightarrow> columns h' = columns h"
    and "x \<notin> set running_best \<Longrightarrow> count_list (columns h') x = count_list (columns h) x"
proof -
  from assms obtain h1 where
    s: "(if \<not> in_index h k then loc_set_row h k (itertuple cols (k, b)) else Inr h) = Inr h1"
    and c: "h' = h1 \<or> (\<exists>p s d. h' = overwrite_best h1 k p s d today)"
    by (rule merge_book_shape)
  note c1 = seed_cases(1)[OF s]
  from c c1 show "set (columns h) \<subseteq> set (columns h')"
    by (auto simp: set_columns_overwrite)
  from c c1 show "columns h' = columns h" if "set running_best \<subseteq> set (columns h)"
    using that by (auto simp: columns_overwrite_schema)
  from c c1 show "count_list (columns h') x = count_list (columns h) x"
    if "x \<notin> set running_best"
    using that by (auto simp: count_columns_overwrite)
qed

lemma merge_book_other:
  assumes "merge_book today cols h (k, b) = Inr h'" and "k' \<noteq> k"
  shows "map_of (rows h') k' = map_option (fill (columns h) (columns h')) (map_of (rows h) k')"
proof -
  from assms(1) obtain h1 where
    s: "(if \<not> in_index h k then loc_set_row h k (itertuple cols (k, b)) else Inr h) = Inr h1"
    and c: "h' = h1 \<or> (\<exists>p s d. h' = overwrite_best h1 k p s d today)"
    by (rule merge_book_shape)
  note c1 = seed_cases(1)[OF s] and c2 = seed_cases(2)[OF s assms(2)]
  from c show ?thesis
  proof
    assume "h' = h1"
    with c1 c2 show ?thesis by (simp add: fill_same_fun option.map_ident)
  next
    assume "\<exists>p s d. h' = overwrite_best h1 k p s d today"
    then obtain p s d where "h' = overwrite_best h1 k p s d today" by blast
    with row_overwrite_other_fill[OF assms(2), of h1 p s d today] c1 c2
    show ?thesis by simp
  qed
qed

lemma merge_book_keeps:
  assumes "merge_book today cols h (k, b) = Inr h'"
      and "map_of (rows h) k' = Some r"
      and "c \<in> set (columns h)" and "c \<notin> set running_best"
  shows "\<exists>r'. map_of (rows h') k' = Some r' \<and> r' c = r c"
proof -
  from assms(1) obtain h1 where
    s: "(if \<not> in_index h k then loc_set_row h k (itertuple cols (k, b)) else Inr h) = Inr h1"
    and ch: "h' = h1 \<or> (\<exists>p s d. h' = overwrite_best h1 k p s d today)"
    by (rule merge_book_shape)
  note c1 = seed_cases(1)[OF s] and c3 = seed_cases(3)[OF s assms(2)]
  from ch show ?thesis
  proof
    assume "h' = h1"
    with c3 show ?thesis by simp
  next
    assume "\<exists>p s d. h' = overwrite_best h1 k p s d today"
    then obtain p s d where h': "h' = overwrite_best h1 k p s d today" by blast
    show ?thesis
    proof (cases "k' = k")
      case True
      with h' c3 assms(4) show ?thesis
        by (auto simp: row_overwrite_self running_best_def)
    next
      case False
      with h' c3 c1 assms(3) show ?thesis
        by (simp add: row_overwrite_other)
    qed
  qed
qed


subsection \<open>The loop\<close>

lemma merge_books_Cons:
  "merge_books today cols (x # bs) h = Inr h' \<longleftrightarrow>
     (\<exists>h1. merge_book today cols h x = Inr h1 \<and> merge_books today cols bs h1 = Inr h')"
  by (simp add: bind_Inr_iff)

lemma merge_books_columns:
  assumes "merge_books today cols bs h = Inr h'"
  shows "set (columns h) \<subseteq> set (columns h')"
    and "set running_best \<subseteq> set (columns h) \<Longrightarrow> columns h' = columns h"
    and "x \<notin> set running_best \<Longrightarrow> count_list (columns h') x = count_list (columns h) x"
  using assms
proof (induction bs arbitrary: h)
  case Nil
  { case 1 then show ?case by simp }
  { case 2 then show ?case by simp }
  { case 3 then show ?case by simp }
next
  case (Cons a bs)
  obtain k b where a: "a = (k, b)" by (cases a)
  { case 1
    then obtain h1 where s: "merge_book today cols h (k, b) = Inr h1"
      and r: "merge_books today cols bs h1 = Inr h'"
      unfolding merge_books_Cons a by blast
    from merge_book_columns(1)[OF s] Cons.IH(1)[OF r] show ?case by blast }
  { case 2
    then obtain h1 where s: "merge_book today cols h (k, b) = Inr h1"
      and r: "merge_books today cols bs h1 = Inr h'"
      unfolding merge_books_Cons a by blast
    from merge_book_columns(2)[OF s 2(1)] have "columns h1 = columns h" .
    with Cons.IH(2)[OF _ r] 2(1) show ?case by simp }
  { case 3
    then obtain h1 where s: "merge_book today cols h (k, b) = Inr h1"
      and r: "merge_books today cols bs h1 = Inr h'"
      unfolding merge_books_Cons a by blast
    from merge_book_columns(3)[OF s 3(1)] Cons.IH(3)[OF 3(1) r] show ?case by simp }
qed

lemma merge_books_other:
  assumes "merge_books today cols bs h = Inr h'" and "k \<notin> fst ` set bs"
  shows "map_of (rows h') k = map_option (fill (columns h) (columns h')) (map_of (rows h) k)"
  using assms
proof (induction bs arbitrary: h)
  case Nil
  then show ?case by (simp add: fill_same_fun option.map_ident)
next
  case (Cons a bs)
  obtain k1 b1 where a: "a = (k1, b1)" by (cases a)
  from Cons.prems(1) obtain h1 where s: "merge_book today cols h (k1, b1) = Inr h1"
    and r: "merge_books today cols bs h1 = Inr h'"
    unfolding merge_books_Cons a by blast
  from Cons.prems(2) a have ne: "k \<noteq> k1" and nin: "k \<notin> fst ` set bs" by auto
  have sub1: "set (columns h) \<subseteq> set (columns h1)" by (rule merge_book_columns(1)[OF s])
  have sub2: "set (columns h1) \<subseteq> set (columns h')" by (rule merge_books_columns(1)[OF r])
  have "map_of (rows h') k = map_option (fill (columns h1) (columns h')) (map_of (rows h1) k)"
    by (rule Cons.IH[OF r nin])
  also have "map_of (rows h1) k = map_option (fill (columns h) (columns h1)) (map_of (rows h) k)"
    by (rule merge_book_other[OF s ne])
  finally show ?case
    by (cases "map_of (rows h) k") (simp_all add: fill_fill[OF sub1 sub2])
qed

lemma merge_books_keeps:
  assumes "merge_books today cols bs h = Inr h'"
      and "map_of (rows h) k = Some r"
      and "c \<in> set (columns h)" and "c \<notin> set running_best"
  shows "\<exists>r'. map_of (rows h') k = Some r' \<and> r' c = r c"
  using assms(1-3)
proof (induction bs arbitrary: h r)
  case Nil
  then show ?case by simp
next
  case (Cons a bs)
  obtain k1 b1 where a: "a = (k1, b1)" by (cases a)
  from Cons.prems(1) obtain h1 where s: "merge_book today cols h (k1, b1) = Inr h1"
    and r: "merge_books today cols bs h1 = Inr h'"
    unfolding merge_books_Cons a by blast
  from merge_book_keeps[OF s Cons.prems(2,3) assms(4)]
  obtain r1 where r1: "map_of (rows h1) k = Some r1" "r1 c = r c" by blast
  from merge_book_columns(1)[OF s] Cons.prems(3) have "c \<in> set (columns h1)" by blast
  from Cons.IH[OF r r1(1) this] r1(2) show ?case by simp
qed


subsection \<open>The date column\<close>

lemma insert_today_cases:
  assumes "insert_today h today books = Inr h'"
  shows "columns h' = take 9 (columns h) @ [today] @ drop 9 (columns h)"
    and "map_of (rows h') k =
           map_option (\<lambda>r. r(today \<mapsto> (case map_of (rows books) k of None \<Rightarrow> NaN
                                          | Some b \<Rightarrow> cell_of b ''best_price'')))
             (map_of (rows h) k)"
  using assms
  by (auto simp: insert_today_def map_of_map_keyed split: if_splits)

lemma count_list_insert_at:
  "count_list (take n xs @ [x] @ drop n xs) y = count_list xs y + (if x = y then 1 else 0)"
proof -
  have "count_list (take n xs @ drop n xs) y = count_list xs y" by simp
  then show ?thesis by (simp del: append_take_drop_id)
qed

lemma update_cases:
  assumes "update_historical_data today hist books = Inr h'"
  obtains (kept) h where "merge_books today (columns books) (rows books) hist = Inr h"
      "today \<in> set (columns h)" "h' = h"
    | (inserted) h where "merge_books today (columns books) (rows books) hist = Inr h"
      "today \<notin> set (columns h)" "insert_today h today books = Inr h'"
  using assms
  by (auto simp: update_historical_data_def bind_Inr_iff split: if_splits)

text \<open>
  C10. A ledger row whose book is not in today's table keeps every field it had: after
  \<^verbatim>\<open>update_historical_data\<close> its value is the same in every column of the old ledger, and
  in every column other than today's date and the four running-best names. When the date
  was not a column yet, the row holds \<open>NaN\<close> in the new date column.
\<close>

theorem update_frame_untouched_row:
  assumes "update_historical_data today hist books = Inr h'"
      and "map_of (rows hist) k = Some r"
      and "k \<notin> fst ` set (rows books)"
  shows "\<exists>r'. map_of (rows h') k = Some r'
           \<and> (\<forall>c. c \<in> set (columns hist) \<or> (c \<noteq> today \<and> c \<notin> set running_best) \<longrightarrow> r' c = r c)
           \<and> (today \<notin> set (columns hist) \<longrightarrow>
                 today \<in> set (columns h') \<and> r' today = Some NaN)"
  using assms(1)
proof (cases rule: update_cases)
  case (kept h)
  let ?r' = "fill (columns hist) (columns h) r"
  from merge_books_other[OF kept(1) assms(3)] assms(2) kept(3)
  have row: "map_of (rows h') k = Some ?r'" by simp
  have sub: "set (columns h) \<subseteq> set (columns hist) \<union> set running_best"
  proof
    fix c assume c: "c \<in> set (columns h)"
    show "c \<in> set (columns hist) \<union> set running_best"
    proof (rule ccontr)
      assume n: "c \<notin> set (columns hist) \<union> set running_best"
      then have "count_list (columns h) c = count_list (columns hist) c"
        using merge_books_columns(3)[OF kept(1), of c] by simp
      with n c show False by (simp add: count_list_0_iff)
    qed
  qed
  have "\<forall>c. c \<in> set (columns hist) \<or> (c \<noteq> today \<and> c \<notin> set running_best) \<longrightarrow> ?r' c = r c"
    using sub by (auto simp: fill_def)
  moreover have "today \<notin> set (columns hist) \<longrightarrow> today \<in> set (columns h') \<and> ?r' today = Some NaN"
    using kept(2,3) by (simp add: fill_def)
  ultimately show ?thesis using row by blast
next
  case (inserted h)
  let ?r1 = "fill (columns hist) (columns h) r"
  let ?r' = "?r1(today \<mapsto> NaN)"
  from merge_books_other[OF inserted(1) assms(3)] assms(2)
  have row1: "map_of (rows h) k = Some ?r1" by simp
  from assms(3) have "map_of (rows books) k = None" by (simp add: map_of_eq_None_iff)
  with insert_today_cases(2)[OF inserted(3), of k] row1
  have row: "map_of (rows h') k = Some ?r'" by simp
  have sub0: "set (columns hist) \<subseteq> set (columns h)" by (rule merge_books_columns(1)[OF inserted(1)])
  have sub: "set (columns h) \<subseteq> set (columns hist) \<union> set running_best"
  proof
    fix c assume c: "c \<in> set (columns h)"
    show "c \<in> set (columns hist) \<union> set running_best"
    proof (rule ccontr)
      assume n: "c \<notin> set (columns hist) \<union> set running_best"
      then have "count_list (columns h) c = count_list (columns hist) c"
        using merge_books_columns(3)[OF inserted(1), of c] by simp
      with n c show False by (simp add: count_list_0_iff)
    qed
  qed
  have "\<forall>c. c \<in> set (columns hist) \<or> (c \<noteq> today \<and> c \<notin> set running_best) \<longrightarrow> ?r' c = r c"
    using sub sub0 inserted(2) by (auto simp: fill_def)
  moreover have "today \<in> set (columns h') \<and> ?r' today = Some NaN"
    by (simp add: insert_today_cases(1)[OF inserted(3)])
  ultimately show ?thesis using row by blast
qed

text \<open>
  A ledger with books 1 and 2 and a table with book 1 only: the row of book 2 keeps its
  running-best fields and gets \<open>NaN\<close> under the new date.
\<close>

theorem update_frame_untouched_row_witness:
  "\<exists>h' r'. update_historical_data ''2024-01-05''
              (demo_ledger [demo_ledger_row ''1'' (Num 12) (Str ''Leya'') (Num 40) (Str ''2024-01-01''),
                            demo_ledger_row ''2'' (Num 8) (Str ''Presenca'') (Num 60) (Str ''2024-01-02'')])
              (demo_books [demo_today_row ''1'' (Num 10) (Str ''Leya'') (Num 50)]) = Inr h'
         \<and> map_of (rows h') ''2'' = Some r'
         \<and> r' ''best_price'' = Some (Num 8) \<and> r' ''best_store'' = Some (Str ''Presenca'')
         \<and> r' ''discount'' = Some (Num 60) \<and> r' ''best_date'' = Some (Str ''2024-01-02'')
         \<and> r' ''2024-01-05'' = Some NaN \<and> ''2024-01-05'' \<in> set (columns h')"
proof -
  let ?T = "''2024-01-05''"
  let ?H = "demo_ledger [demo_ledger_row ''1'' (Num 12) (Str ''Leya'') (Num 40) (Str ''2024-01-01''),
                         demo_ledger_row ''2'' (Num 8) (Str ''Presenca'') (Num 60) (Str ''2024-01-02'')]"
  let ?B = "demo_books [demo_today_row ''1'' (Num 10) (Str ''Leya'') (Num 50)]"
  have "le_margin (Num 10) (Num 12) = Inr True"
    by (simp add: float_defs)
  then obtain h' where u: "update_historical_data ?T ?H ?B = Inr h'"
    by (simp add: frame_defs)
  have m: "map_of (rows ?H) ''2'' =
             Some (snd (demo_ledger_row ''2'' (Num 8) (Str ''Presenca'') (Num 60) (Str ''2024-01-02'')))"
    by (simp add: demo_ledger_def demo_ledger_row_def)
  have n: "''2'' \<notin> fst ` set (rows ?B)"
    by (simp add: demo_books_def demo_today_row_def)
  have c: "set running_best \<subseteq> set (columns ?H)" "?T \<notin> set (columns ?H)"
    by (simp_all add: running_best_def demo_ledger_def demo_ledger_columns_def)
  from update_frame_untouched_row[OF u m n] c obtain r' where
    "map_of (rows h') ''2'' = Some r'"
    "\<forall>c\<in>set running_best. r' c =
        snd (demo_ledger_row ''2'' (Num 8) (Str ''Presenca'') (Num 60) (Str ''2024-01-02'')) c"
    "?T \<in> set (columns h')" "r' ?T = Some NaN"
    by blast
  with u show ?thesis
    by (auto simp: running_best_def demo_ledger_row_def)
qed



text \<open>
  C5 (amended). Two runs of \<^verbatim>\<open>update_historical_data\<close> on the same date, on a ledger with
  at most one column under that date (a date label is none of the running-best names):
  after the second run exactly one column carries the date, and in every row the first run
  left, the value under the date is the one the first run left there. When the first run
  created the date column, that value is the first run's best price of the book (\<open>NaN\<close>
  for a book that was not in the first run's table). The second run does not write its
  prices into the date column.
\<close>

theorem update_twice_same_date:
  assumes "update_historical_data today hist books1 = Inr h1"
      and "update_historical_data today h1 books2 = Inr h2"
      and "count_list (columns hist) today \<le> 1"
      and "today \<notin> set running_best"
  shows "count_list (columns h2) today = 1
       \<and> (\<forall>k r1. map_of (rows h1) k = Some r1 \<longrightarrow>
             (\<exists>r2. map_of (rows h2) k = Some r2 \<and> r2 today = r1 today
                 \<and> (today \<notin> set (columns hist) \<longrightarrow>
                       r2 today = Some (case map_of (rows books1) k of
                                          None \<Rightarrow> NaN
                                        | Some b \<Rightarrow> cell_of b ''best_price''))))"
proof -
  have first: "r1 today = Some (case map_of (rows books1) k of
                                  None \<Rightarrow> NaN | Some b \<Rightarrow> cell_of b ''best_price'')"
    if "map_of (rows h1) k = Some r1" "today \<notin> set (columns hist)" for k r1
    using assms(1)
  proof (cases rule: update_cases)
    case (kept h)
    from that(2) have "count_list (columns hist) today = 0" by (simp add: count_list_0_iff)
    with merge_books_columns(3)[OF kept(1) assms(4)] kept(2) show ?thesis
      by (simp add: count_list_0_iff)
  next
    case (inserted h)
    from insert_today_cases(2)[OF inserted(3), of k] that(1) show ?thesis
      by (cases "map_of (rows h) k") auto
  qed
  have one: "count_list (columns h1) today = 1"
    using assms(1)
  proof (cases rule: update_cases)
    case (kept h)
    from kept(2) have "count_list (columns h) today \<noteq> 0"
      by (simp add: count_list_0_iff)
    with merge_books_columns(3)[OF kept(1) assms(4)] kept(3) assms(3)
    show ?thesis by simp
  next
    case (inserted h)
    from inserted(2) have "count_list (columns h) today = 0" by (simp add: count_list_0_iff)
    then show ?thesis
      unfolding insert_today_cases(1)[OF inserted(3)] count_list_insert_at by simp
  qed
  then have mem1: "today \<in> set (columns h1)"
    using count_list_0_iff[of "columns h1" today] by simp
  from assms(2) show ?thesis
  proof (cases rule: update_cases)
    case (kept h)
    from merge_books_columns(3)[OF kept(1) assms(4)] one kept(3)
    have "count_list (columns h2) today = 1" by simp
    moreover have "\<exists>r2. map_of (rows h2) k = Some r2 \<and> r2 today = r1 today
                 \<and> (today \<notin> set (columns hist) \<longrightarrow>
                       r2 today = Some (case map_of (rows books1) k of
                                          None \<Rightarrow> NaN
                                        | Some b \<Rightarrow> cell_of b ''best_price''))"
      if "map_of (rows h1) k = Some r1" for k r1
      using merge_books_keeps[OF kept(1) that mem1 assms(4)] kept(3) first[OF that] by auto
    ultimately show ?thesis by blast
  next
    case (inserted h)
    from merge_books_columns(1)[OF inserted(1)] mem1 inserted(2) show ?thesis by blast
  qed
qed

text \<open>
  First run with best price 10, second run with best price 9: one date column, holding
  10 after both runs.
\<close>

theorem update_twice_same_date_witness:
  "\<exists>h1 h2. update_historical_data ''2024-01-05''
              (demo_ledger [demo_ledger_row ''1'' (Num 12) (Str ''Leya'') (Num 40) (Str ''2024-01-01'')])
              (demo_books [demo_today_row ''1'' (Num 10) (Str ''Leya'') (Num 50)]) = Inr h1
         \<and> update_historical_data ''2024-01-05'' h1
              (demo_books [demo_today_row ''1'' (Num 9) (Str ''Almedina'') (Num 55)]) = Inr h2
         \<and> count_list (columns h2) ''2024-01-05'' = 1
         \<and> loc_get h1 ''1'' ''2024-01-05'' = Inr (Num 10)
         \<and> loc_get h2 ''1'' ''2024-01-05'' = Inr (Num 10)"
proof -
  let ?T = "''2024-01-05''"
  let ?H = "demo_ledger [demo_ledger_row ''1'' (Num 12) (Str ''Leya'') (Num 40) (Str ''2024-01-01'')]"
  let ?B1 = "demo_books [demo_today_row ''1'' (Num 10) (Str ''Leya'') (Num 50)]"
  let ?B2 = "demo_books [demo_today_row ''1'' (Num 9) (Str ''Almedina'') (Num 55)]"
  have le: "le_margin (Num 10) (Num 12) = Inr True" "le_margin (Num 9) (Num 10) = Inr True"
    by (simp_all add: float_defs)
  obtain h2 where "run_twice ?T ?H ?B1 ?B2 = Inr h2"
    by (simp add: frame_defs le)
  then obtain h1 where u1: "update_historical_data ?T ?H ?B1 = Inr h1"
    and u2: "update_historical_data ?T h1 ?B2 = Inr h2"
    by (auto simp: run_twice_def bind_Inr_iff)
  have "ledger_cell (update_historical_data ?T ?H ?B1) ''1'' ?T = Inr (Num 10)"
    by (simp add: frame_defs le)
  with u1 have g1: "loc_get h1 ''1'' ?T = Inr (Num 10)"
    by (simp add: ledger_cell_def bind_def)
  then obtain r1 where r1: "map_of (rows h1) ''1'' = Some r1" and v1: "cell_of r1 ?T = Num 10"
    by (auto simp: loc_get_def split: if_splits option.splits)
  have c: "count_list (columns ?H) ?T \<le> 1"
    by (simp add: demo_ledger_def demo_ledger_columns_def)
  have n: "?T \<notin> set running_best" by (simp add: running_best_def)
  have t: "?T \<notin> set (columns ?H)"
    by (simp add: demo_ledger_def demo_ledger_columns_def)
  have b1: "map_of (rows ?B1) ''1'' = Some (snd (demo_today_row ''1'' (Num 10) (Str ''Leya'') (Num 50)))"
    by (simp add: demo_books_def demo_today_row_def)
  from update_twice_same_date[OF u1 u2 c n] r1 t obtain r2 where
    cnt: "count_list (columns h2) ?T = 1" and
    r2: "map_of (rows h2) ''1'' = Some r2" "r2 ?T = r1 ?T"
        "r2 ?T = Some (case map_of (rows ?B1) ''1'' of
                         None \<Rightarrow> NaN | Some b \<Rightarrow> cell_of b ''best_price'')"
    by blast
  from r2(3) have first: "r2 ?T = Some (Num 10)"
    unfolding b1 by (simp add: cell_of_def demo_today_row_def)
  from cnt have "?T \<in> set (columns h2)"
    using count_list_0_iff[of "columns h2" ?T] by simp
  with r2(1) first have "loc_get h2 ''1'' ?T = Inr (Num 10)"
    by (simp add: loc_get_def cell_of_def)
  with u1 u2 cnt g1 show ?thesis by blast
qed

text \<open>
  C5 as stated fails: after a first run with best price 10 and a second run on the same
  date with best price 9, the ledger has one date column and the running best price is 9,
  but the date column still holds 10.
\<close>

theorem update_twice_same_date_counterexample:
  "ledger_columns (run_twice ''2024-01-05''
      (demo_ledger [demo_ledger_row ''1'' (Num 12) (Str ''Leya'') (Num 40) (Str ''2024-01-01'')])
      (demo_books [demo_today_row ''1'' (Num 10) (Str ''Leya'') (Num 50)])
      (demo_books [demo_today_row ''1'' (Num 9) (Str ''Almedina'') (Num 55)]))
     = Inr (demo_ledger_columns @ [''2024-01-05''])
   \<and> ledger_cell (run_twice ''2024-01-05''
      (demo_ledger [demo_ledger_row ''1'' (Num 12) (Str ''Leya'') (Num 40) (Str ''2024-01-01'')])
      (demo_books [demo_today_row ''1'' (Num 10) (Str ''Leya'') (Num 50)])
      (demo_books [demo_today_row ''1'' (Num 9) (Str ''Almedina'') (Num 55)])) ''1'' ''2024-01-05''
     = Inr (Num 10)
   \<and> ledger_cell (run_twice ''2024-01-05''
      (demo_ledger [demo_ledger_row ''1'' (Num 12) (Str ''Leya'') (Num 40) (Str ''2024-01-01'')])
      (demo_books [demo_today_row ''1'' (Num 10) (Str ''Leya'') (Num 50)])
      (demo_books [demo_today_row ''1'' (Num 9) (Str ''Almedina'') (Num 55)])) ''1'' ''best_price''
     = Inr (Num 9)
   \<and> loc_get (demo_books [demo_today_row ''1'' (Num 9) (Str ''Almedina'') (Num 55)])
        ''1'' ''best_price'' = Inr (Num 9)"
proof -
  have le: "le_margin (Num 10) (Num 12) = Inr True" "le_margin (Num 9) (Num 10) = Inr True"
    by (simp_all add: float_defs)
  show ?thesis by (simp add: frame_defs le)
qed

text \<open>
  C7 (the code departs from the claim). Book 1 is in today's table and not in the ledger.
  The new row is filled by position from the tuple that starts with the index label, so
  every field is shifted by one: the title holds the isbn and the ledger's best price holds
  the default price. With no quote today the row's best price is 20 (the default price),
  not absent. With a quote of 25, above the default price, the overwrite does not run and
  the row keeps best price 20, best store 25, discount \<open>Leya\<close> and best date -25.
\<close>

theorem seeding_shifts_fields:
  "ledger_index (update_historical_data ''2024-01-05''
      (demo_ledger [demo_ledger_row ''2'' (Num 8) (Str ''Presenca'') (Num 60) (Str ''2024-01-02'')])
      (demo_books [demo_today_row ''1'' PyNone PyNone PyNone])) = Inr [''2'', ''1'']
   \<and> ledger_cell (update_historical_data ''2024-01-05''
      (demo_ledger [demo_ledger_row ''2'' (Num 8) (Str ''Presenca'') (Num 60) (Str ''2024-01-02'')])
      (demo_books [demo_today_row ''1'' PyNone PyNone PyNone])) ''1'' ''best_price'' = Inr (Num 20)
   \<and> ledger_cell (update_historical_data ''2024-01-05''
      (demo_ledger [demo_ledger_row ''2'' (Num 8) (Str ''Presenca'') (Num 60) (Str ''2024-01-02'')])
      (demo_books [demo_today_row ''1'' PyNone PyNone PyNone])) ''1'' ''title'' = Inr (Str ''1'')
   \<and> ledger_cell (update_historical_data ''2024-01-05''
      (demo_ledger [demo_ledger_row ''2'' (Num 8) (Str ''Presenca'') (Num 60) (Str ''2024-01-02'')])
      (demo_books [demo_today_row ''1'' (Num 25) (Str ''Leya'') (Num (-25))])) ''1'' ''best_price''
       = Inr (Num 20)
   \<and> ledger_cell (update_historical_data ''2024-01-05''
      (demo_ledger [demo_ledger_row ''2'' (Num 8) (Str ''Presenca'') (Num 60) (Str ''2024-01-02'')])
      (demo_books [demo_today_row ''1'' (Num 25) (Str ''Leya'') (Num (-25))])) ''1'' ''best_store''
       = Inr (Num 25)
   \<and> ledger_cell (update_historical_data ''2024-01-05''
      (demo_ledger [demo_ledger_row ''2'' (Num 8) (Str ''Presenca'') (Num 60) (Str ''2024-01-02'')])
      (demo_books [demo_today_row ''1'' (Num 25) (Str ''Leya'') (Num (-25))])) ''1'' ''discount''
       = Inr (Str ''Leya'')
   \<and> ledger_cell (update_historical_data ''2024-01-05''
      (demo_ledger [demo_ledger_row ''2'' (Num 8) (Str ''Presenca'') (Num 60) (Str ''2024-01-02'')])
      (demo_books [demo_today_row ''1'' (Num 25) (Str ''Leya'') (Num (-25))])) ''1'' ''best_date''
       = Inr (Num (-25))"
proof -
  have le: "le_margin (Num 25) (Num 20) = Inr False"
    by (simp add: float_defs)
  show ?thesis by (simp add: frame_defs le)
qed

end
